theory Spec2Isabelle
  imports Complex_Main "HOL-Library.Sublist" "HOL-Library.Multiset"
begin

section \<open>Text helpers of the Python runtime\<close>

text \<open>
  Python strings are modelled as \<^typ>\<open>string\<close> (lists of 8-bit characters); the
  schedule sheet and the forecast codes are ASCII. The helpers below are the
  ASCII behaviour of \<^verbatim>\<open>str.strip\<close>, \<^verbatim>\<open>str.upper\<close>,
  \<^verbatim>\<open>str.lower\<close>, \<^verbatim>\<open>str.split(sep)\<close> and \<^verbatim>\<open>int(str)\<close>.
\<close>

definition is_space :: "char \<Rightarrow> bool" where
  "is_space c = (let n = of_char c :: nat in (9 \<le> n \<and> n \<le> 13) \<or> (28 \<le> n \<and> n \<le> 32))"

definition is_digit :: "char \<Rightarrow> bool" where
  "is_digit c = (let n = of_char c :: nat in 48 \<le> n \<and> n \<le> 57)"

definition digit_val :: "char \<Rightarrow> nat" where
  "digit_val c = of_char c - 48"

text \<open>The characters \<^verbatim>\<open>int(str)\<close> skips around a literal: fewer than \<^verbatim>\<open>str.strip\<close> does.\<close>

definition is_int_space :: "char \<Rightarrow> bool" where
  "is_int_space c = (let n = of_char c :: nat in (9 \<le> n \<and> n \<le> 13) \<or> n = 32)"

definition strip_with :: "(char \<Rightarrow> bool) \<Rightarrow> string \<Rightarrow> string" where
  "strip_with blank s = rev (dropWhile blank (rev (dropWhile blank s)))"

definition py_strip :: "string \<Rightarrow> string" where
  "py_strip s = strip_with is_space s"

definition upper_char :: "char \<Rightarrow> char" where
  "upper_char c = (let n = of_char c :: nat in if 97 \<le> n \<and> n \<le> 122 then char_of (n - 32) else c)"

definition lower_char :: "char \<Rightarrow> char" where
  "lower_char c = (let n = of_char c :: nat in if 65 \<le> n \<and> n \<le> 90 then char_of (n + 32) else c)"

definition py_upper :: "string \<Rightarrow> string" where
  "py_upper s = map upper_char s"

definition py_lower :: "string \<Rightarrow> string" where
  "py_lower s = map lower_char s"

text \<open>\<^verbatim>\<open>s.split(sep)\<close> for a one-character separator: never empty, one more part than separators.\<close>

fun py_split :: "char \<Rightarrow> string \<Rightarrow> string list" where
  "py_split sep [] = [[]]"
| "py_split sep (c # cs) =
     (if c = sep then [] # py_split sep cs
      else (case py_split sep cs of
              [] \<Rightarrow> [[c]]
            | p # ps \<Rightarrow> (c # p) # ps))"

text \<open>
  The decimal literal accepted by \<^verbatim>\<open>int(str)\<close> after the sign: digits, with single
  underscores allowed between digits. The flag says whether the previous character was a digit.
\<close>

fun int_literal :: "string \<Rightarrow> bool \<Rightarrow> nat \<Rightarrow> nat option" where
  "int_literal [] prev acc = (if prev then Some acc else None)"
| "int_literal (c # cs) prev acc =
     (if is_digit c then int_literal cs True (10 * acc + digit_val c)
      else if c = CHR ''_'' \<and> prev then int_literal cs False acc
      else None)"

text \<open>\<^verbatim>\<open>int(s)\<close>: surrounding whitespace, an optional sign, a decimal literal; \<open>None\<close> is ValueError.\<close>

definition py_int :: "string \<Rightarrow> int option" where
  "py_int s =
     (case strip_with is_int_space s of
        [] \<Rightarrow> None
      | c # cs \<Rightarrow>
          if c = CHR ''-'' then map_option (\<lambda>n. - int n) (int_literal cs False 0)
          else if c = CHR ''+'' then map_option int (int_literal cs False 0)
          else map_option int (int_literal (c # cs) False 0))"

section \<open>sal.py: time parsing\<close>

text \<open>
  \<^verbatim>\<open>parse_hhmm\<close>: the whole body sits in \<^verbatim>\<open>try ... except Exception: return None\<close>,
  so every failure of \<^verbatim>\<open>int\<close> is the value \<open>None\<close>.
\<close>

definition parse_hhmm :: "string \<Rightarrow> int option" where
  "parse_hhmm s0 =
     (let s = py_strip s0 in
      if s = [] then None
      else
        let parts = py_split CHR '':'' s in
        if length parts < 2 then None
        else
          (case py_int (parts ! 0) of
             None \<Rightarrow> None
           | Some hh \<Rightarrow>
               (case py_int (parts ! 1) of
                  None \<Rightarrow> None
                | Some mm \<Rightarrow>
                    if 0 \<le> hh \<and> hh \<le> 23 \<and> 0 \<le> mm \<and> mm \<le> 59 then Some (hh * 60 + mm)
                    else None)))"

section \<open>sal.py: data model and calendar arithmetic\<close>

text \<open>
  \<^verbatim>\<open>ClassItem\<close> is the dataclass of one schedule row; its field \<^verbatim>\<open>end\<close> is
  called \<open>end_str\<close> here, since \<open>end\<close> is reserved.
\<close>

record ClassItem =
  day :: string
  start :: string
  end_str :: string
  activity :: string
  teacher :: string
  location :: string
  tag :: string

text \<open>
  A \<^verbatim>\<open>date\<close> is its proleptic ordinal (\<^verbatim>\<open>date.toordinal()\<close>), a
  \<^verbatim>\<open>datetime\<close> the number of microseconds since midnight of ordinal 0, a
  \<^verbatim>\<open>timedelta\<close> a number of microseconds. Comparison, sum and difference of
  Python's naive datetimes are those of these integers. \<^verbatim>\<open>total_seconds()\<close> and the
  float quotients of the progress bars are taken as exact rationals.
\<close>

type_synonym date = int
type_synonym datetime = int
type_synonym timedelta = int

record dt_time =
  hour :: int
  minute :: int

definition usec_per_day :: int where
  "usec_per_day = 86400000000"

definition timedelta_days :: "int \<Rightarrow> timedelta" where
  "timedelta_days n = n * usec_per_day"

definition timedelta_minutes :: "int \<Rightarrow> timedelta" where
  "timedelta_minutes n = n * 60000000"

definition total_seconds :: "timedelta \<Rightarrow> rat" where
  "total_seconds td = of_int td / 1000000"

definition date_of :: "datetime \<Rightarrow> date" where
  "date_of dt = dt div usec_per_day"

definition weekday :: "date \<Rightarrow> int" where
  "weekday d = (d + 6) mod 7"

definition combine :: "date \<Rightarrow> dt_time \<Rightarrow> datetime" where
  "combine d t = d * usec_per_day + timedelta_minutes (hour t * 60 + minute t)"

definition parse_time_obj :: "string \<Rightarrow> dt_time option" where
  "parse_time_obj s =
     (case parse_hhmm s of
        None \<Rightarrow> None
      | Some m \<Rightarrow> Some \<lparr>hour = m div 60, minute = m mod 60\<rparr>)"

definition DAY_TO_WD :: "string \<rightharpoonup> int" where
  "DAY_TO_WD = map_of [(''SEG'', 0), (''TER'', 1), (''QUA'', 2), (''QUI'', 3),
                       (''SEX'', 4), (''SAB'', 5), (''DOM'', 6)]"

definition best_date_for_daycode :: "datetime \<Rightarrow> string \<Rightarrow> date option" where
  "best_date_for_daycode now day_code =
     (let dc = py_upper (py_strip day_code) in
      case DAY_TO_WD dc of
        None \<Rightarrow> None
      | Some target_wd \<Rightarrow>
          (let candidates = [date_of now - 1, date_of now, date_of now + 1] in
           case filter (\<lambda>d. weekday d = target_wd) candidates of
             d # _ \<Rightarrow> Some d
           | [] \<Rightarrow> Some (date_of now)))"

definition item_interval_debug ::
  "datetime \<Rightarrow> ClassItem \<Rightarrow> (datetime \<times> datetime) option \<times> string" where
  "item_interval_debug now it =
     (case best_date_for_daycode now (day it) of
        None \<Rightarrow> (None, ''invalid_day'')
      | Some base_date \<Rightarrow>
          (case (parse_time_obj (start it), parse_time_obj (end_str it)) of
             (Some t_start, Some t_end) \<Rightarrow>
               (let start_dt = combine base_date t_start;
                    end_dt = combine base_date t_end;
                    end_dt = (if end_dt \<le> start_dt then end_dt + timedelta_days 1 else end_dt)
                in (Some (start_dt, end_dt), ''ok''))
           | _ \<Rightarrow> (None, ''invalid_time'')))"

section \<open>sal.py: classification of the schedule\<close>

text \<open>
  The rows of \<^verbatim>\<open>now_list\<close> and \<^verbatim>\<open>next_list\<close>: the six texts of the card, the
  progress, \<^verbatim>\<open>end_dt\<close> (index 7) and \<^verbatim>\<open>start_dt\<close> (index 8).
\<close>

type_synonym card = "string \<times> string \<times> string \<times> string \<times> string \<times> string \<times> rat"
type_synonym row = "string \<times> string \<times> string \<times> string \<times> string \<times> string \<times> rat \<times> datetime \<times> datetime"

definition row_progress :: "row \<Rightarrow> rat" where
  "row_progress = (\<lambda>(a, b, c, d, e, f, g, end_dt, start_dt). g)"

definition row_end :: "row \<Rightarrow> datetime" where
  "row_end = (\<lambda>(a, b, c, d, e, f, g, end_dt, start_dt). end_dt)"

definition row_start :: "row \<Rightarrow> datetime" where
  "row_start = (\<lambda>(a, b, c, d, e, f, g, end_dt, start_dt). start_dt)"

definition row_card :: "row \<Rightarrow> card" where
  "row_card = (\<lambda>(a, b, c, d, e, f, g, end_dt, start_dt). (a, b, c, d, e, f, g))"

record loop_state =
  now_list :: "row list"
  next_list :: "row list"
  discard_day :: nat
  discard_time :: nat
  discard_other :: nat

definition init_state :: loop_state where
  "init_state = \<lparr>now_list = [], next_list = [], discard_day = 0, discard_time = 0, discard_other = 0\<rparr>"

text \<open>
  The progress of a current entry, from \<^verbatim>\<open>total\<close> and \<^verbatim>\<open>done\<close>:
  \<^verbatim>\<open>0.0 if total <= 0 else max(0.0, min(1.0, done / total))\<close>.
\<close>

definition current_progress :: "rat \<Rightarrow> rat \<Rightarrow> rat" where
  "current_progress total_s done_s = (if total_s \<le> 0 then 0 else max 0 (min 1 (done_s / total_s)))"

text \<open>
  The progress of an upcoming entry, from \<^verbatim>\<open>total_win\<close> and \<^verbatim>\<open>remaining\<close>: the
  \<^verbatim>\<open>if total_win <= 0\<close> statement, then \<^verbatim>\<open>progress_next = max(0.02, progress_next)\<close>.
\<close>

definition upcoming_progress :: "rat \<Rightarrow> rat \<Rightarrow> rat" where
  "upcoming_progress total_win remaining =
     (let progress_next =
            (if total_win \<le> 0 then 0
             else max 0 (min 1 (1 - remaining / total_win)))
      in max (1 / 50) progress_next)"

text \<open>One pass of the body of \<^verbatim>\<open>for it in self.all_items\<close>.\<close>

definition classify_step :: "datetime \<Rightarrow> datetime \<Rightarrow> loop_state \<Rightarrow> ClassItem \<Rightarrow> loop_state" where
  "classify_step now_dt window_end st it =
     (case item_interval_debug now_dt it of
        (None, reason) \<Rightarrow>
          if reason = ''invalid_day'' then st\<lparr>discard_day := discard_day st + 1\<rparr>
          else if reason = ''invalid_time'' then st\<lparr>discard_time := discard_time st + 1\<rparr>
          else st\<lparr>discard_other := discard_other st + 1\<rparr>
      | (Some (start_dt, end_dt), reason) \<Rightarrow>
          if start_dt \<le> now_dt \<and> now_dt < end_dt then
            (let total = total_seconds (end_dt - start_dt);
                 done = total_seconds (now_dt - start_dt);
                 progress = current_progress total done
             in st\<lparr>now_list := now_list st @
                  [(start it, end_str it, activity it, teacher it, location it, tag it,
                    progress, end_dt, start_dt)]\<rparr>)
          else if now_dt \<le> start_dt \<and> start_dt \<le> window_end then
            (let total_win = total_seconds (window_end - now_dt);
                 remaining = total_seconds (start_dt - now_dt);
                 progress_next = upcoming_progress total_win remaining
             in st\<lparr>next_list := next_list st @
                  [(start it, end_str it, activity it, teacher it, location it, tag it,
                    progress_next, end_dt, start_dt)]\<rparr>)
          else st)"

text \<open>
  \<^verbatim>\<open>_compute_now_next\<close> up to the two stable sorts: \<^verbatim>\<open>list.sort(key=...)\<close> is
  stable, as \<^const>\<open>sort_key\<close> is. The reference instant \<^verbatim>\<open>datetime.now()\<close> and
  \<^verbatim>\<open>self.all_items\<close> are the arguments. The log line written when both lists are
  empty reads the discard counters and changes no result; it is left out.
\<close>

definition sorted_lists :: "datetime \<Rightarrow> ClassItem list \<Rightarrow> row list \<times> row list" where
  "sorted_lists now_dt all_items =
     (let window_end = now_dt + timedelta_minutes 120;
          st = foldl (classify_step now_dt window_end) init_state all_items
      in (sort_key row_end (now_list st), sort_key row_start (next_list st)))"

text \<open>The result of \<^verbatim>\<open>_compute_now_next\<close>: the cards of both lists, cut to six.\<close>

definition compute_now_next :: "datetime \<Rightarrow> ClassItem list \<Rightarrow> card list \<times> card list" where
  "compute_now_next now_dt all_items =
     (let (now_sorted, next_sorted) = sorted_lists now_dt all_items;
          now_cards = map row_card now_sorted;
          next_cards = map row_card next_sorted
      in (take 6 now_cards, take 6 next_cards))"

section \<open>sal.py: the rows one entry contributes\<close>

text \<open>
  What one pass of the loop appends to \<^verbatim>\<open>now_list\<close> and to \<^verbatim>\<open>next_list\<close>: no row
  or one row. These two functions only serve to state what the loop computes.
\<close>

definition entry_row :: "ClassItem \<Rightarrow> rat \<Rightarrow> datetime \<Rightarrow> datetime \<Rightarrow> row" where
  "entry_row it progress end_dt start_dt =
     (start it, end_str it, activity it, teacher it, location it, tag it, progress, end_dt, start_dt)"

definition current_rows :: "datetime \<Rightarrow> ClassItem \<Rightarrow> row list" where
  "current_rows now_dt it =
     (case item_interval_debug now_dt it of
        (Some (start_dt, end_dt), reason) \<Rightarrow>
          if start_dt \<le> now_dt \<and> now_dt < end_dt then
            [entry_row it (current_progress (total_seconds (end_dt - start_dt))
                                            (total_seconds (now_dt - start_dt))) end_dt start_dt]
          else []
      | _ \<Rightarrow> [])"

definition upcoming_rows :: "datetime \<Rightarrow> datetime \<Rightarrow> ClassItem \<Rightarrow> row list" where
  "upcoming_rows now_dt window_end it =
     (case item_interval_debug now_dt it of
        (Some (start_dt, end_dt), reason) \<Rightarrow>
          if start_dt \<le> now_dt \<and> now_dt < end_dt then []
          else if now_dt \<le> start_dt \<and> start_dt \<le> window_end then
            [entry_row it (upcoming_progress (total_seconds (window_end - now_dt))
                                             (total_seconds (start_dt - now_dt))) end_dt start_dt]
          else []
      | _ \<Rightarrow> [])"

section \<open>Example inputs\<close>

text \<open>Ordinal 739000 is Wednesday 24 April 2024.\<close>

definition late_class :: ClassItem where
  "late_class = \<lparr>day = ''QUA'', start = ''23:30'', end_str = ''00:30'', activity = ''Futsal'',
                 teacher = ''Ana'', location = ''Quadra'', tag = ''GERAL''\<rparr>"

definition morning_class :: ClassItem where
  "morning_class = \<lparr>day = ''qua'', start = ''09:00'', end_str = ''10:00'', activity = ''Yoga'',
                    teacher = ''Bia'', location = ''Sala 2'', tag = ''MENOR''\<rparr>"

text \<open>
  Nine Wednesday classes, out of order: seven that run at 09:30 and two that start within
  the next two hours.
\<close>

definition class_from_to :: "string \<Rightarrow> string \<Rightarrow> string \<Rightarrow> ClassItem" where
  "class_from_to s e a =
     \<lparr>day = ''QUA'', start = s, end_str = e, activity = a, teacher = ''Ana'',
      location = ''Quadra'', tag = ''GERAL''\<rparr>"

definition busy_wednesday :: "ClassItem list" where
  "busy_wednesday =
     [class_from_to ''09:00'' ''11:00'' ''A'', class_from_to ''09:00'' ''10:00'' ''B'',
      class_from_to ''09:00'' ''12:00'' ''C'', class_from_to ''09:00'' ''10:30'' ''D'',
      class_from_to ''09:00'' ''13:00'' ''E'', class_from_to ''09:00'' ''11:30'' ''F'',
      class_from_to ''09:00'' ''09:45'' ''G'', class_from_to ''10:30'' ''11:00'' ''H'',
      class_from_to ''10:00'' ''11:00'' ''I'']"

section \<open>sal.py: the specification's time-of-day text\<close>

text \<open>
  The specification's words for \<^verbatim>\<open>parseTimeOfDay\<close>, for comparison with
  \<^const>\<open>parse_hhmm\<close>: the text is \<^verbatim>\<open>HH:MM\<close> or \<^verbatim>\<open>HH:MM:SS\<close>, two digits each,
  and the value is \<open>60 * HH + MM\<close> when the hour is at most 23 and the minute at most 59.
\<close>

definition two_digits :: "char \<Rightarrow> char \<Rightarrow> nat" where
  "two_digits a b = 10 * digit_val a + digit_val b"

fun spec_hhmm_text :: "string \<Rightarrow> bool" where
  "spec_hhmm_text [h1, h2, c1, m1, m2] =
     (is_digit h1 \<and> is_digit h2 \<and> c1 = CHR '':'' \<and> is_digit m1 \<and> is_digit m2)"
| "spec_hhmm_text [h1, h2, c1, m1, m2, c2, s1, s2] =
     (is_digit h1 \<and> is_digit h2 \<and> c1 = CHR '':'' \<and> is_digit m1 \<and> is_digit m2 \<and>
      c2 = CHR '':'' \<and> is_digit s1 \<and> is_digit s2)"
| "spec_hhmm_text _ = False"

fun spec_hour_minute :: "string \<Rightarrow> nat \<times> nat" where
  "spec_hour_minute (h1 # h2 # c1 # m1 # m2 # rest) = (two_digits h1 h2, two_digits m1 m2)"
| "spec_hour_minute _ = (0, 0)"

definition spec_parseTimeOfDay :: "string \<Rightarrow> int option" where
  "spec_parseTimeOfDay s =
     (let (hh, mm) = spec_hour_minute s in
      if spec_hhmm_text s \<and> hh \<le> 23 \<and> mm \<le> 59 then Some (int hh * 60 + int mm) else None)"

section \<open>weather.py: JSON values and the Python operations on them\<close>

text \<open>
  A decoded JSON document. A number carries its exact value (the literals
  \<^verbatim>\<open>NaN\<close> and \<^verbatim>\<open>Infinity\<close>, which are not JSON, are left out); an object is
  its list of bindings, read with \<^const>\<open>map_of\<close>. Python's \<^verbatim>\<open>None\<close> is
  \<open>JNull\<close>.
  Non-ASCII text of the labels is written as its UTF-8 bytes.
\<close>

datatype json =
    JNull
  | JBool bool
  | JNum rat
  | JStr string
  | JArr "json list"
  | JObj "(string \<times> json) list"

datatype py_exc =
    HTTPError
  | URLError
  | OtherError
  | AttributeError
  | TypeError
  | KeyError
  | RuntimeError
  | OSError

definition bind_exc :: "py_exc + 'a \<Rightarrow> ('a \<Rightarrow> py_exc + 'b) \<Rightarrow> py_exc + 'b" where
  "bind_exc r f = (case r of Inl e \<Rightarrow> Inl e | Inr v \<Rightarrow> f v)"

text \<open>Truth value of an object, as \<^verbatim>\<open>if x:\<close>, \<^verbatim>\<open>not x\<close> and \<^verbatim>\<open>x or y\<close> take it.\<close>

fun truthy :: "json \<Rightarrow> bool" where
  "truthy JNull = False"
| "truthy (JBool b) = b"
| "truthy (JNum q) = (q \<noteq> 0)"
| "truthy (JStr s) = (s \<noteq> [])"
| "truthy (JArr xs) = (xs \<noteq> [])"
| "truthy (JObj kvs) = (kvs \<noteq> [])"

text \<open>\<^verbatim>\<open>x.get(key, default)\<close>: only a dict has the method.\<close>

fun dict_get :: "json \<Rightarrow> string \<Rightarrow> json \<Rightarrow> py_exc + json" where
  "dict_get (JObj kvs) k dflt = Inr (case map_of kvs k of None \<Rightarrow> dflt | Some v \<Rightarrow> v)"
| "dict_get _ k dflt = Inl AttributeError"

text \<open>\<^verbatim>\<open>x[0]\<close>, reached only for a truthy \<open>x\<close>.\<close>

fun index0 :: "json \<Rightarrow> py_exc + json" where
  "index0 (JArr (x # xs)) = Inr x"
| "index0 (JStr (c # cs)) = Inr (JStr [c])"
| "index0 (JObj kvs) = Inl KeyError"
| "index0 _ = Inl TypeError"

text \<open>\<^verbatim>\<open>for item in x\<close>: the items a loop visits, or TypeError.\<close>

fun py_iter :: "json \<Rightarrow> py_exc + json list" where
  "py_iter (JArr xs) = Inr xs"
| "py_iter (JStr s) = Inr (map (\<lambda>c. JStr [c]) s)"
| "py_iter (JObj kvs) = Inr (map JStr (remdups (map fst kvs)))"
| "py_iter _ = Inl TypeError"

text \<open>\<^verbatim>\<open>round(x)\<close> of a float: to the nearest integer, ties to the even one.\<close>

definition py_round :: "rat \<Rightarrow> int" where
  "py_round q =
     (let f = \<lfloor>q\<rfloor>; d = q - of_int f in
      if d < 1 / 2 then f
      else if 1 / 2 < d then f + 1
      else if even f then f else f + 1)"

text \<open>\<^verbatim>\<open>str(n)\<close> of an integer, for the f-strings.\<close>

fun digits_of :: "nat \<Rightarrow> string" where
  "digits_of n =
     (if n < 10 then [char_of (48 + n)]
      else digits_of (n div 10) @ [char_of (48 + n mod 10)])"

declare digits_of.simps [simp del]

definition py_str_int :: "int \<Rightarrow> string" where
  "py_str_int i = (if i < 0 then CHR ''-'' # digits_of (nat (- i)) else digits_of (nat i))"

section \<open>weather.py: the result record and the labels\<close>

record WeatherResult =
  ok :: bool
  temp_c :: "int option"
  today_label :: string
  tomorrow_label :: string
  symbol_code :: json
  source :: string
  cache_ts :: json

text \<open>
  \<^verbatim>\<open>_safe_int\<close>: \<^verbatim>\<open>int(round(float(x)))\<close>, \<open>None\<close> on any exception. The builtin
  \<^verbatim>\<open>float\<close> is the parameter \<open>fl\<close>: the finite value it returns, or \<open>None\<close> where
  it raises or returns a value that \<^verbatim>\<open>round\<close> rejects.
\<close>

definition safe_int :: "(json \<Rightarrow> rat option) \<Rightarrow> json \<Rightarrow> int option" where
  "safe_int fl x = (case fl x of None \<Rightarrow> None | Some q \<Rightarrow> Some (py_round q))"

text \<open>\<^verbatim>\<open>float\<close> on the numbers and booleans of a document; other values are taken to raise.\<close>

fun float_of_json :: "json \<Rightarrow> rat option" where
  "float_of_json (JNum q) = Some q"
| "float_of_json (JBool b) = Some (if b then 1 else 0)"
| "float_of_json _ = None"

definition pick_period :: "int \<Rightarrow> string" where
  "pick_period now_hour =
     (if 6 \<le> now_hour \<and> now_hour \<le> 11 then ''manh'' @ [CHR 0xC3, CHR 0xA3]
      else if 12 \<le> now_hour \<and> now_hour \<le> 17 then ''tarde''
      else ''noite'')"

text \<open>The loop of \<^verbatim>\<open>_minmax_tomorrow\<close>, with \<^verbatim>\<open>tmin\<close> and \<^verbatim>\<open>tmax\<close> as accumulators.\<close>

fun minmax_loop ::
  "(json \<Rightarrow> rat option) \<Rightarrow> json list \<Rightarrow> int option \<Rightarrow> int option \<Rightarrow> py_exc + (int option \<times> int option)" where
  "minmax_loop fl [] tmin tmax = Inr (tmin, tmax)"
| "minmax_loop fl (item # rest) tmin tmax =
     (case bind_exc (dict_get item ''data'' (JObj [])) (\<lambda>d.
           bind_exc (dict_get d ''instant'' (JObj [])) (\<lambda>i.
           bind_exc (dict_get i ''details'' (JObj [])) (\<lambda>inst.
           dict_get inst ''air_temperature'' JNull))) of
        Inl e \<Rightarrow> Inl e
      | Inr v \<Rightarrow>
          (case safe_int fl v of
             None \<Rightarrow> minmax_loop fl rest tmin tmax
           | Some temp \<Rightarrow>
               minmax_loop fl rest
                 (Some (case tmin of None \<Rightarrow> temp | Some m \<Rightarrow> min m temp))
                 (Some (case tmax of None \<Rightarrow> temp | Some m \<Rightarrow> max m temp))))"

definition minmax_tomorrow ::
  "(json \<Rightarrow> rat option) \<Rightarrow> json \<Rightarrow> py_exc + (int option \<times> int option)" where
  "minmax_tomorrow fl timeseries =
     bind_exc (py_iter timeseries) (\<lambda>items. minmax_loop fl items None None)"

text \<open>The local function \<^verbatim>\<open>humanize\<close> of \<^verbatim>\<open>_extract_summary\<close>.\<close>

definition humanize :: "json \<Rightarrow> py_exc + string" where
  "humanize sy =
     (if \<not> truthy sy then Inr ''Sem dados''
      else case sy of
        JStr t \<Rightarrow>
          (let s = py_lower t in
           if sublist ''thunder'' s then Inr ''Tempestade''
           else if sublist ''snow'' s then Inr ''Neve''
           else if sublist ''rain'' s \<or> sublist ''sleet'' s then
             (if sublist ''heavyrain'' s \<or> sublist ''rainshowersandthunder'' s
                 \<or> sublist ''heavyrainshowers'' s then Inr ''Chuva forte''
              else if sublist ''lightrain'' s \<or> sublist ''lightrainshowers'' s then Inr ''Chuva fraca''
              else Inr ''Chuva'')
           else if sublist ''cloudy'' s then
             Inr (if sublist ''partly'' s then ''Parcialmente nublado'' else ''Nublado'')
           else if sublist ''clearsky'' s \<or> sublist ''fair'' s then
             Inr (''C'' @ [CHR 0xC3, CHR 0xA9] @ ''u limpo'')
           else Inr (''Tempo inst'' @ [CHR 0xC3, CHR 0xA1] @ ''vel''))
      | _ \<Rightarrow> Inl AttributeError)"

definition tomorrow_placeholder :: string where
  "tomorrow_placeholder = ''Amanh'' @ [CHR 0xC3, CHR 0xA3] @ '': '' @ [CHR 0xE2, CHR 0x80, CHR 0x94]"

definition tomorrow_range :: "int \<Rightarrow> int \<Rightarrow> string" where
  "tomorrow_range tmin tmax =
     ''Amanh'' @ [CHR 0xC3, CHR 0xA3] @ '': '' @ py_str_int tmin @ [CHR 0xE2, CHR 0x80, CHR 0x93]
       @ py_str_int tmax @ [CHR 0xC2, CHR 0xB0] @ ''C''"

text \<open>
  \<^verbatim>\<open>_extract_summary\<close>. The clock reading \<^verbatim>\<open>int(time.time())\<close> is the argument
  \<open>now_ts\<close>. An AttributeError, KeyError or TypeError of a lookup leaves the function.
\<close>

definition extract_summary ::
  "(json \<Rightarrow> rat option) \<Rightarrow> json \<Rightarrow> int \<Rightarrow> int \<Rightarrow> py_exc + WeatherResult" where
  "extract_summary fl payload now_hour now_ts =
     bind_exc (dict_get payload ''properties'' (JObj [])) (\<lambda>props.
     bind_exc (dict_get props ''timeseries'' (JArr [])) (\<lambda>timeseries.
     bind_exc
       (if truthy timeseries then
          bind_exc (index0 timeseries) (\<lambda>t0.
          bind_exc (dict_get t0 ''data'' (JObj [])) (\<lambda>first.
          bind_exc (dict_get first ''instant'' (JObj [])) (\<lambda>i.
          bind_exc (dict_get i ''details'' (JObj [])) (\<lambda>det.
          bind_exc (dict_get det ''air_temperature'' JNull) (\<lambda>tv.
          bind_exc (dict_get first ''next_1_hours'' (JObj [])) (\<lambda>h1.
          bind_exc (dict_get h1 ''summary'' (JObj [])) (\<lambda>s1.
          bind_exc (dict_get s1 ''symbol_code'' JNull) (\<lambda>n1.
          bind_exc (dict_get first ''next_6_hours'' (JObj [])) (\<lambda>h6.
          bind_exc (dict_get h6 ''summary'' (JObj [])) (\<lambda>s6.
          bind_exc (dict_get s6 ''symbol_code'' JNull) (\<lambda>n6.
          Inr (safe_int fl tv, if truthy n1 then n1 else n6))))))))))))
        else Inr (None, JNull)) (\<lambda>(temp_now, symbol).
     bind_exc (humanize symbol) (\<lambda>human.
     bind_exc (minmax_tomorrow fl timeseries) (\<lambda>(tmin, tmax).
       Inr \<lparr>ok = True,
            temp_c = temp_now,
            today_label = ''Hoje ('' @ pick_period now_hour @ ''): '' @ human,
            tomorrow_label =
              (case (tmin, tmax) of
                 (Some lo, Some hi) \<Rightarrow> tomorrow_range lo hi
               | _ \<Rightarrow> tomorrow_placeholder),
            symbol_code = symbol,
            source = ''online'',
            cache_ts = JNum (of_int now_ts)\<rparr>)))))"

section \<open>weather.py: the HTTP retrieval\<close>

text \<open>
  What one pass of the \<^verbatim>\<open>try\<close> body of \<^verbatim>\<open>_http_get_json\<close> meets:
  \<^verbatim>\<open>urllib.error.HTTPError\<close>, \<^verbatim>\<open>urllib.error.URLError\<close>, any other exception
  (a timeout while reading, a body that \<^verbatim>\<open>json.loads\<close> rejects), or the decoded body.
  The network is a function from the attempt number to this outcome. The trace records
  every \<^verbatim>\<open>opener.open\<close> and every \<^verbatim>\<open>time.sleep\<close> (in milliseconds).
\<close>

datatype attempt_outcome =
    RaisesHTTPError
  | RaisesURLError
  | RaisesOther
  | Returns json

datatype event =
    Open nat
  | Sleep nat

fun http_loop ::
  "(nat \<Rightarrow> attempt_outcome) \<Rightarrow> nat list \<Rightarrow> py_exc option \<Rightarrow> event list \<Rightarrow> (py_exc + json) \<times> event list" where
  "http_loop net [] last_exc tr =
     (Inl (case last_exc of Some e \<Rightarrow> e | None \<Rightarrow> RuntimeError), tr)"
| "http_loop net (attempt # rest) last_exc tr =
     (case net attempt of
        Returns body \<Rightarrow> (Inr body, tr @ [Open attempt])
      | RaisesHTTPError \<Rightarrow> (Inl HTTPError, tr @ [Open attempt])
      | RaisesURLError \<Rightarrow>
          if attempt = 1 then http_loop net rest (Some URLError) (tr @ [Open attempt, Sleep 400])
          else (Inl URLError, tr @ [Open attempt])
      | RaisesOther \<Rightarrow>
          if attempt = 1 then http_loop net rest (Some OtherError) (tr @ [Open attempt, Sleep 400])
          else (Inl OtherError, tr @ [Open attempt]))"

definition http_get_json :: "(nat \<Rightarrow> attempt_outcome) \<Rightarrow> (py_exc + json) \<times> event list" where
  "http_get_json net = http_loop net [1, 2] None []"

section \<open>weather.py: get_weather\<close>

text \<open>
  The surroundings of one call: the network, what \<^verbatim>\<open>_read_json\<close> finds in
  \<^verbatim>\<open>weather_cache.json\<close> (\<open>None\<close> for a missing or unreadable file), whether the move
  into \<^verbatim>\<open>cache_old\<close> and the atomic write go through, and the clock. The logger is
  \<^verbatim>\<open>None\<close>. The pruning of \<^verbatim>\<open>cache_old\<close> never touches the current file and
  swallows its own exceptions; it is left out.
\<close>

record world =
  net :: "nat \<Rightarrow> attempt_outcome"
  cache_file :: "json option"
  archive_ok :: bool
  write_ok :: bool
  now_hour :: int
  now_ts :: int

definition read_json :: "json option \<Rightarrow> json" where
  "read_json file = (case file of None \<Rightarrow> JNull | Some j \<Rightarrow> j)"

fun is_dict :: "json \<Rightarrow> bool" where
  "is_dict (JObj kvs) = True"
| "is_dict _ = False"

text \<open>
  \<^verbatim>\<open>_archive_existing_cache\<close>, as far as the current file goes: it is moved away unless
  it is missing, \<^verbatim>\<open>cached.get\<close> raises (swallowed) or the move fails (swallowed).
\<close>

definition archive_existing_cache :: "bool \<Rightarrow> json option \<Rightarrow> json option" where
  "archive_existing_cache moves file =
     (case file of
        None \<Rightarrow> None
      | Some j \<Rightarrow>
          (let cached = (if truthy j then j else JObj []) in
           if is_dict cached \<and> moves then None else Some j))"

definition no_data :: WeatherResult where
  "no_data = \<lparr>ok = False, temp_c = None, today_label = ''Sem dados'',
              tomorrow_label = tomorrow_placeholder, symbol_code = JNull,
              source = ''cache'', cache_ts = JNull\<rparr>"

text \<open>The \<^verbatim>\<open>except Exception\<close> branch of \<^verbatim>\<open>get_weather\<close>, for the cache file as it then is.\<close>

definition cache_fallback ::
  "(json \<Rightarrow> rat option) \<Rightarrow> world \<Rightarrow> json option \<Rightarrow> py_exc + WeatherResult" where
  "cache_fallback fl w file =
     (let cached = read_json file in
      if \<not> truthy cached then Inr no_data
      else
        bind_exc (dict_get cached ''payload'' JNull) (\<lambda>payload.
          if is_dict payload then
            bind_exc (extract_summary fl payload (now_hour w) (now_ts w)) (\<lambda>res.
            bind_exc (dict_get cached ''ts'' JNull) (\<lambda>ts.
              Inr (res\<lparr>source := ''cache'', cache_ts := ts, ok := True\<rparr>)))
          else Inr no_data))"

text \<open>
  \<^verbatim>\<open>get_weather\<close>: the result (or the exception that leaves it) and the cache file
  afterwards.
\<close>

definition get_weather ::
  "(json \<Rightarrow> rat option) \<Rightarrow> string \<Rightarrow> world \<Rightarrow> (py_exc + WeatherResult) \<times> json option" where
  "get_weather fl city_label w =
     (case bind_exc (fst (http_get_json (net w))) (\<lambda>payload.
           bind_exc (extract_summary fl payload (now_hour w) (now_ts w)) (\<lambda>res.
           Inr (payload, res))) of
        Inr (payload, res) \<Rightarrow>
          (let archived = archive_existing_cache (archive_ok w) (cache_file w) in
           if write_ok w then
             (Inr res,
              Some (JObj [(''ts'', cache_ts res), (''payload'', payload), (''city'', JStr city_label)]))
           else (cache_fallback fl w archived, archived))
      | Inl e \<Rightarrow> (cache_fallback fl w (cache_file w), cache_file w))"

section \<open>Example networks\<close>

definition flaky_net :: "nat \<Rightarrow> attempt_outcome" where
  "flaky_net n = (if n = 1 then RaisesURLError else Returns (JObj []))"

definition forbidden_net :: "nat \<Rightarrow> attempt_outcome" where
  "forbidden_net n = RaisesHTTPError"

definition down_net :: "nat \<Rightarrow> attempt_outcome" where
  "down_net n = RaisesOther"

section \<open>weather.py: the specification's next-day bucket\<close>

text \<open>
  The specification's words for the tomorrow label, for comparison with
  \<^const>\<open>minmax_tomorrow\<close>: minimum and maximum over the forecast points whose timestamp
  falls on the next day. A point carries its timestamp under \<^verbatim>\<open>time\<close>, as
  \<^verbatim>\<open>2026-02-12T06:00:00Z\<close>; the day is its first ten characters.
\<close>

definition in_day :: "string \<Rightarrow> json \<Rightarrow> bool" where
  "in_day date item =
     (case dict_get item ''time'' JNull of
        Inr (JStr t) \<Rightarrow> take 10 t = date
      | _ \<Rightarrow> False)"

definition spec_minmax_tomorrow ::
  "(json \<Rightarrow> rat option) \<Rightarrow> string \<Rightarrow> json list \<Rightarrow> py_exc + (int option \<times> int option)" where
  "spec_minmax_tomorrow fl tomorrow items = minmax_loop fl (filter (in_day tomorrow) items) None None"

section \<open>Example forecasts and surroundings\<close>

definition forecast_point :: "string \<Rightarrow> rat \<Rightarrow> string \<Rightarrow> json" where
  "forecast_point time temp symb =
     JObj [(''time'', JStr time),
           (''data'', JObj [
              (''instant'', JObj [(''details'', JObj [(''air_temperature'', JNum temp)])]),
              (''next_1_hours'', JObj [(''summary'', JObj [(''symbol_code'', JStr symb)])])])]"

definition forecast_of :: "json list \<Rightarrow> json" where
  "forecast_of points =
     JObj [(''type'', JStr ''Feature''), (''properties'', JObj [(''timeseries'', JArr points)])]"

text \<open>A forecast fetched on 11 February 2026 at 15 h: one point of that day, one of the next.\<close>

definition two_day_points :: "json list" where
  "two_day_points =
     [forecast_point ''2026-02-11T15:00:00Z'' 31 ''clearsky_day'',
      forecast_point ''2026-02-12T06:00:00Z'' (37 / 2) ''cloudy'']"

definition today_only_points :: "json list" where
  "today_only_points = [forecast_point ''2026-02-11T15:00:00Z'' 31 ''clearsky_day'']"

definition good_net :: "nat \<Rightarrow> attempt_outcome" where
  "good_net n = Returns (forecast_of two_day_points)"

definition good_record :: json where
  "good_record =
     JObj [(''ts'', JNum 1770000000), (''payload'', forecast_of two_day_points),
           (''city'', JStr ''Alfenas'')]"

text \<open>A cache file whose payload is a dict, with \<^verbatim>\<open>null\<close> under \<^verbatim>\<open>properties\<close>.\<close>

definition odd_record :: json where
  "odd_record =
     JObj [(''ts'', JNum 1770000000), (''payload'', JObj [(''properties'', JNull)]),
           (''city'', JStr ''Alfenas'')]"

definition offline_odd_cache :: world where
  "offline_odd_cache =
     \<lparr>net = down_net, cache_file = Some odd_record, archive_ok = True, write_ok = True,
      now_hour = 15, now_ts = 1770822000\<rparr>"

definition offline_good_cache :: world where
  "offline_good_cache =
     \<lparr>net = down_net, cache_file = Some good_record, archive_ok = True, write_ok = True,
      now_hour = 15, now_ts = 1770822000\<rparr>"

definition offline_no_cache :: world where
  "offline_no_cache =
     \<lparr>net = down_net, cache_file = None, archive_ok = True, write_ok = True,
      now_hour = 15, now_ts = 1770822000\<rparr>"

definition online_writable :: world where
  "online_writable =
     \<lparr>net = good_net, cache_file = None, archive_ok = True, write_ok = True,
      now_hour = 15, now_ts = 1770822000\<rparr>"

text \<open>The network answers, and the cache directory cannot be written.\<close>

definition online_unwritable :: world where
  "online_unwritable =
     \<lparr>net = good_net, cache_file = None, archive_ok = False, write_ok = False,
      now_hour = 15, now_ts = 1770822000\<rparr>"

text \<open>The network answers, a good cache file exists, and the write of the new one fails.\<close>

definition online_write_fails :: world where
  "online_write_fails =
     \<lparr>net = good_net, cache_file = Some good_record, archive_ok = True, write_ok = False,
      now_hour = 15, now_ts = 1770822000\<rparr>"

section \<open>Time-of-day parsing\<close>

lemma digit_not_space: "is_digit c \<Longrightarrow> \<not> is_space c \<and> \<not> is_int_space c"
  by (auto simp: is_digit_def is_space_def is_int_space_def Let_def)

lemma digit_not_special:
  assumes "is_digit c"
  shows "c \<noteq> CHR '':''" "c \<noteq> CHR ''-''" "c \<noteq> CHR ''+''" "c \<noteq> CHR ''_''"
  using assms by (auto simp: is_digit_def Let_def)

lemma strip_with_id:
  assumes "s \<noteq> []" "\<not> blank (hd s)" "\<not> blank (last s)"
  shows "strip_with blank s = s"
proof -
  have a: "dropWhile blank s = s" using assms by (cases s) auto
  have "rev s \<noteq> []" "\<not> blank (hd (rev s))" using assms by (auto simp: hd_rev)
  then have b: "dropWhile blank (rev s) = rev s" by (cases "rev s") auto
  show ?thesis by (simp add: strip_with_def a b)
qed

lemma py_strip_id:
  assumes "s \<noteq> []" "\<not> is_space (hd s)" "\<not> is_space (last s)"
  shows "py_strip s = s"
  using assms by (simp add: py_strip_def strip_with_id)

lemma py_int_two_digits:
  assumes "is_digit a" "is_digit b"
  shows "py_int [a, b] = Some (int (two_digits a b))"
proof -
  have "strip_with is_int_space [a, b] = [a, b]"
    using assms by (intro strip_with_id) (auto simp: digit_not_space)
  then show ?thesis
    using assms by (simp add: py_int_def digit_not_special two_digits_def)
qed

lemma parse_hhmm_5:
  assumes "is_digit h1" "is_digit h2" "is_digit m1" "is_digit m2"
  shows "parse_hhmm [h1, h2, CHR '':'', m1, m2] =
         (if two_digits h1 h2 \<le> 23 \<and> two_digits m1 m2 \<le> 59
          then Some (int (two_digits h1 h2) * 60 + int (two_digits m1 m2)) else None)"
proof -
  have s: "py_strip [h1, h2, CHR '':'', m1, m2] = [h1, h2, CHR '':'', m1, m2]"
    using assms by (intro py_strip_id) (auto simp: digit_not_space)
  have p: "py_split CHR '':'' [h1, h2, CHR '':'', m1, m2] = [[h1, h2], [m1, m2]]"
    using assms by (simp add: digit_not_special)
  show ?thesis
    using assms by (simp add: parse_hhmm_def s p py_int_two_digits del: py_split.simps)
qed

lemma parse_hhmm_8:
  assumes "is_digit h1" "is_digit h2" "is_digit m1" "is_digit m2" "is_digit s1" "is_digit s2"
  shows "parse_hhmm [h1, h2, CHR '':'', m1, m2, CHR '':'', s1, s2] =
         (if two_digits h1 h2 \<le> 23 \<and> two_digits m1 m2 \<le> 59
          then Some (int (two_digits h1 h2) * 60 + int (two_digits m1 m2)) else None)"
proof -
  let ?s = "[h1, h2, CHR '':'', m1, m2, CHR '':'', s1, s2]"
  have s: "py_strip ?s = ?s"
    using assms by (intro py_strip_id) (auto simp: digit_not_space)
  have p: "py_split CHR '':'' ?s = [[h1, h2], [m1, m2], [s1, s2]]"
    using assms by (simp add: digit_not_special)
  show ?thesis
    using assms by (simp add: parse_hhmm_def s p py_int_two_digits del: py_split.simps)
qed

lemma parse_hhmm_range: "parse_hhmm s = Some m \<Longrightarrow> 0 \<le> m \<and> m < 1440"
  by (auto simp: parse_hhmm_def Let_def split: if_splits option.splits)

lemma parse_hhmm_spec_text:
  assumes "spec_hhmm_text s"
  shows "parse_hhmm s = spec_parseTimeOfDay s"
  using assms
  by (cases s rule: spec_hhmm_text.cases)
     (simp_all add: parse_hhmm_5 parse_hhmm_8 spec_parseTimeOfDay_def)

lemma parse_hhmm_parts:
  "parse_hhmm s = Some m \<longleftrightarrow>
     (\<exists>hh mm. 2 \<le> length (py_split CHR '':'' (py_strip s)) \<and>
        py_int (py_split CHR '':'' (py_strip s) ! 0) = Some hh \<and>
        py_int (py_split CHR '':'' (py_strip s) ! 1) = Some mm \<and>
        0 \<le> hh \<and> hh \<le> 23 \<and> 0 \<le> mm \<and> mm \<le> 59 \<and> m = hh * 60 + mm)"
proof (cases "py_strip s = []")
  case True
  then show ?thesis by (simp add: parse_hhmm_def)
next
  case False
  then show ?thesis
    by (auto simp: parse_hhmm_def Let_def split: option.splits)
qed

text \<open>
  C8 (as amended). The parser is total: it returns a value or \<open>None\<close>, and a value is a
  minute of the day, below 1440. It returns \<open>60 * hh + mm\<close> exactly when the trimmed
  text has at least two colon-separated parts of which the first two read as integers
  \<open>hh\<close> in 0..23 and \<open>mm\<close> in 0..59; what follows a second colon is not looked at. On
  the texts \<^verbatim>\<open>HH:MM\<close> and \<^verbatim>\<open>HH:MM:SS\<close> of the specification it agrees with the
  specification: the value for an hour up to 23 and a minute up to 59, no value otherwise.
\<close>

theorem parse_hhmm_tolerant:
  "(case parse_hhmm s of None \<Rightarrow> True | Some v \<Rightarrow> 0 \<le> v \<and> v < 1440) \<and>
   (parse_hhmm s = Some m \<longleftrightarrow>
     (\<exists>hh mm. 2 \<le> length (py_split CHR '':'' (py_strip s)) \<and>
        py_int (py_split CHR '':'' (py_strip s) ! 0) = Some hh \<and>
        py_int (py_split CHR '':'' (py_strip s) ! 1) = Some mm \<and>
        0 \<le> hh \<and> hh \<le> 23 \<and> 0 \<le> mm \<and> mm \<le> 59 \<and> m = hh * 60 + mm)) \<and>
   (spec_hhmm_text s \<longrightarrow> parse_hhmm s = spec_parseTimeOfDay s)"
proof (intro conjI impI)
  show "case parse_hhmm s of None \<Rightarrow> True | Some v \<Rightarrow> 0 \<le> v \<and> v < 1440"
    using parse_hhmm_range[of s] by (cases "parse_hhmm s") auto
next
  show "parse_hhmm s = Some m \<longleftrightarrow>
     (\<exists>hh mm. 2 \<le> length (py_split CHR '':'' (py_strip s)) \<and>
        py_int (py_split CHR '':'' (py_strip s) ! 0) = Some hh \<and>
        py_int (py_split CHR '':'' (py_strip s) ! 1) = Some mm \<and>
        0 \<le> hh \<and> hh \<le> 23 \<and> 0 \<le> mm \<and> mm \<le> 59 \<and> m = hh * 60 + mm)"
    by (rule parse_hhmm_parts)
next
  assume "spec_hhmm_text s"
  then show "parse_hhmm s = spec_parseTimeOfDay s" by (rule parse_hhmm_spec_text)
qed

theorem parse_hhmm_tolerant_witness:
  "spec_hhmm_text ''23:59:07'' \<and> parse_hhmm ''23:59:07'' = spec_parseTimeOfDay ''23:59:07'' \<and>
   spec_parseTimeOfDay ''23:59:07'' = Some 1439 \<and>
   spec_hhmm_text ''24:00'' \<and> parse_hhmm ''24:00'' = spec_parseTimeOfDay ''24:00'' \<and>
   spec_parseTimeOfDay ''24:00'' = None"
proof -
  have a: "spec_hhmm_text ''23:59:07''" by (simp add: is_digit_def)
  have b: "spec_hhmm_text ''24:00''" by (simp add: is_digit_def)
  have c: "spec_parseTimeOfDay ''23:59:07'' = Some 1439"
    by (simp add: spec_parseTimeOfDay_def two_digits_def digit_val_def is_digit_def)
  have d: "spec_parseTimeOfDay ''24:00'' = None"
    by (simp add: spec_parseTimeOfDay_def two_digits_def digit_val_def is_digit_def)
  show ?thesis
    using a b c d parse_hhmm_tolerant[of "''23:59:07''" 1439] parse_hhmm_tolerant[of "''24:00''" 0]
    by simp
qed

theorem parse_hhmm_accepts_malformed:
  "\<not> spec_hhmm_text ''09:30:xx'' \<and> spec_parseTimeOfDay ''09:30:xx'' = None \<and>
   parse_hhmm ''09:30:xx'' = Some 570"
proof -
  have "parse_hhmm ''09:30:xx'' = Some 570" by code_simp
  then show ?thesis by (simp add: spec_parseTimeOfDay_def is_digit_def)
qed

section \<open>Resolved intervals\<close>

lemma parse_time_obj_minutes:
  assumes "parse_time_obj s = Some t"
  shows "parse_hhmm s = Some (hour t * 60 + minute t) \<and> 0 \<le> hour t * 60 + minute t \<and>
         hour t * 60 + minute t < 1440"
proof -
  from assms obtain m where m: "parse_hhmm s = Some m" and t: "t = \<lparr>hour = m div 60, minute = m mod 60\<rparr>"
    by (auto simp: parse_time_obj_def split: option.splits)
  have "hour t * 60 + minute t = m" using t by simp
  then show ?thesis using m parse_hhmm_range[OF m] by simp
qed

lemma combine_bounds:
  assumes "parse_time_obj s = Some t"
  shows "d * usec_per_day \<le> combine d t \<and> combine d t < d * usec_per_day + usec_per_day"
  using parse_time_obj_minutes[OF assms]
  by (simp add: combine_def timedelta_minutes_def usec_per_day_def)

lemma date_of_combine:
  assumes "parse_time_obj s = Some t"
  shows "date_of (combine d t) = d"
proof -
  obtain r where r: "combine d t = d * usec_per_day + r" "0 \<le> r" "r < usec_per_day"
    using combine_bounds[OF assms, of d] by (metis add.commute diff_add_cancel diff_ge_0_iff_ge add_less_cancel_left)
  have "0 < usec_per_day" by (simp add: usec_per_day_def)
  then show ?thesis
    using r by (simp add: date_of_def)
qed

lemma item_interval_debug_Some:
  assumes "item_interval_debug now it = (Some (start_dt, end_dt), reason)"
  shows "\<exists>base t_start t_end.
           best_date_for_daycode now (day it) = Some base \<and>
           parse_time_obj (start it) = Some t_start \<and>
           parse_time_obj (end_str it) = Some t_end \<and>
           start_dt = combine base t_start \<and>
           end_dt = (if combine base t_end \<le> start_dt then combine base t_end + timedelta_days 1
                     else combine base t_end) \<and>
           reason = ''ok''"
  using assms
  by (auto simp: item_interval_debug_def Let_def split: option.splits if_splits)

lemma item_interval_debug_order:
  assumes "item_interval_debug now it = (Some (start_dt, end_dt), reason)"
  shows "start_dt < end_dt \<and> end_dt - start_dt \<le> usec_per_day"
proof -
  from item_interval_debug_Some[OF assms] obtain base t_start t_end where
    ts: "parse_time_obj (start it) = Some t_start" and
    te: "parse_time_obj (end_str it) = Some t_end" and
    s: "start_dt = combine base t_start" and
    e: "end_dt = (if combine base t_end \<le> start_dt then combine base t_end + timedelta_days 1
                  else combine base t_end)"
    by blast
  show ?thesis
    using combine_bounds[OF ts, of base] combine_bounds[OF te, of base] s e
    by (auto simp: timedelta_days_def split: if_splits)
qed

lemma parse_time_obj_2330: "parse_time_obj ''23:30'' = Some \<lparr>hour = 23, minute = 30\<rparr>"
  by code_simp

lemma parse_time_obj_0030: "parse_time_obj ''00:30'' = Some \<lparr>hour = 0, minute = 30\<rparr>"
  by code_simp

text \<open>
  C5. Whenever an entry resolves, its start is the anchored date combined with the
  start time, and its end is the anchored date combined with the end time, pushed
  forward by exactly one day if that instant is not after the start, and left alone
  otherwise; the end is then after the start. An entry from 23:30 to 00:30 with a
  recognised day code resolves, its end is one hour after its start, and the end falls
  on the calendar day after the start.
\<close>

theorem item_interval_midnight_push:
  "(item_interval_debug now it = (Some (start_dt, end_dt), reason) \<longrightarrow>
      (\<exists>base t_start t_end.
          best_date_for_daycode now (day it) = Some base \<and>
          parse_time_obj (start it) = Some t_start \<and>
          parse_time_obj (end_str it) = Some t_end \<and>
          start_dt = combine base t_start \<and>
          end_dt = (if combine base t_end \<le> start_dt then combine base t_end + timedelta_days 1
                    else combine base t_end)) \<and>
      start_dt < end_dt) \<and>
   (start it = ''23:30'' \<and> end_str it = ''00:30'' \<and> best_date_for_daycode now (day it) \<noteq> None \<longrightarrow>
      (\<exists>s e. item_interval_debug now it = (Some (s, e), ''ok'') \<and>
             e = s + timedelta_minutes 60 \<and> date_of e = date_of s + 1))"
proof (intro conjI impI)
  assume a: "item_interval_debug now it = (Some (start_dt, end_dt), reason)"
  from item_interval_debug_Some[OF a]
  show "\<exists>base t_start t_end.
          best_date_for_daycode now (day it) = Some base \<and>
          parse_time_obj (start it) = Some t_start \<and>
          parse_time_obj (end_str it) = Some t_end \<and>
          start_dt = combine base t_start \<and>
          end_dt = (if combine base t_end \<le> start_dt then combine base t_end + timedelta_days 1
                    else combine base t_end)"
    by blast
  from item_interval_debug_order[OF a] show "start_dt < end_dt" by simp
next
  assume b: "start it = ''23:30'' \<and> end_str it = ''00:30'' \<and> best_date_for_daycode now (day it) \<noteq> None"
  then obtain base where base: "best_date_for_daycode now (day it) = Some base" by auto
  let ?s = "combine base \<lparr>hour = 23, minute = 30\<rparr>"
  let ?e = "combine base \<lparr>hour = 0, minute = 30\<rparr> + timedelta_days 1"
  have le: "combine base \<lparr>hour = 0, minute = 30\<rparr> \<le> ?s"
    by (simp add: combine_def timedelta_minutes_def)
  have res: "item_interval_debug now it = (Some (?s, ?e), ''ok'')"
    using b base le
    by (simp add: item_interval_debug_def parse_time_obj_2330 parse_time_obj_0030 Let_def)
  have hour: "?e = ?s + timedelta_minutes 60"
    by (simp add: combine_def timedelta_minutes_def timedelta_days_def usec_per_day_def)
  have ds: "date_of ?s = base"
    using date_of_combine[OF parse_time_obj_2330] .
  have "?e = combine (base + 1) \<lparr>hour = 0, minute = 30\<rparr>"
    by (simp add: combine_def timedelta_days_def algebra_simps)
  then have de: "date_of ?e = base + 1"
    using date_of_combine[OF parse_time_obj_0030, of "base + 1"] by simp
  show "\<exists>s e. item_interval_debug now it = (Some (s, e), ''ok'') \<and>
             e = s + timedelta_minutes 60 \<and> date_of e = date_of s + 1"
    using res hour ds de by (intro exI[of _ ?s] exI[of _ ?e]) simp
qed

theorem item_interval_midnight_push_witness:
  "item_interval_debug (739000 * usec_per_day + timedelta_minutes 1425) late_class =
     (Some (63849684600000000, 63849688200000000), ''ok'') \<and>
   (63849684600000000 :: int) < 63849688200000000 \<and>
   (63849688200000000 :: int) = 63849684600000000 + timedelta_minutes 60 \<and>
   date_of 63849688200000000 = date_of 63849684600000000 + 1 \<and>
   best_date_for_daycode (739000 * usec_per_day + timedelta_minutes 1425) (day late_class) = Some 739000"
proof -
  let ?now = "739000 * usec_per_day + timedelta_minutes 1425"
  have r: "item_interval_debug ?now late_class =
             (Some (63849684600000000, 63849688200000000), ''ok'')"
    by code_simp
  have b: "best_date_for_daycode ?now (day late_class) = Some 739000"
    by code_simp
  have f: "start late_class = ''23:30'' \<and> end_str late_class = ''00:30''"
    by (simp add: late_class_def)
  show ?thesis
    using r b f
      item_interval_midnight_push[of ?now late_class 63849684600000000 63849688200000000 "''ok''"]
    by simp
qed

section \<open>The classification loop\<close>

lemma classify_step_now_list:
  "now_list (classify_step now_dt window_end st it) = now_list st @ current_rows now_dt it"
  by (auto simp: classify_step_def current_rows_def entry_row_def Let_def
           split: option.splits prod.splits)

lemma classify_step_next_list:
  "next_list (classify_step now_dt window_end st it) =
     next_list st @ upcoming_rows now_dt window_end it"
  by (auto simp: classify_step_def upcoming_rows_def entry_row_def Let_def
           split: option.splits prod.splits)

lemma foldl_now_list:
  "now_list (foldl (classify_step now_dt window_end) st items) =
     now_list st @ concat (map (current_rows now_dt) items)"
  by (induction items arbitrary: st) (simp_all add: classify_step_now_list)

lemma foldl_next_list:
  "next_list (foldl (classify_step now_dt window_end) st items) =
     next_list st @ concat (map (upcoming_rows now_dt window_end) items)"
  by (induction items arbitrary: st) (simp_all add: classify_step_next_list)

lemma sorted_lists_rows:
  "sorted_lists now_dt items =
     (sort_key row_end (concat (map (current_rows now_dt) items)),
      sort_key row_start
        (concat (map (upcoming_rows now_dt (now_dt + timedelta_minutes 120)) items)))"
  by (simp add: sorted_lists_def Let_def foldl_now_list foldl_next_list init_state_def)

lemma current_progress_inside:
  assumes "start_dt \<le> now_dt" "now_dt < end_dt"
  shows "current_progress (total_seconds (end_dt - start_dt)) (total_seconds (now_dt - start_dt)) =
           max 0 (min 1 (total_seconds (now_dt - start_dt) / total_seconds (end_dt - start_dt)))"
  using assms by (simp add: current_progress_def total_seconds_def)

lemma in_current_rows:
  "r \<in> set (current_rows now_dt it) \<longleftrightarrow>
     (\<exists>start_dt end_dt.
        item_interval_debug now_dt it = (Some (start_dt, end_dt), ''ok'') \<and>
        start_dt \<le> now_dt \<and> now_dt < end_dt \<and>
        r = (start it, end_str it, activity it, teacher it, location it, tag it,
             max 0 (min 1 (total_seconds (now_dt - start_dt) / total_seconds (end_dt - start_dt))),
             end_dt, start_dt))"
proof (cases "item_interval_debug now_dt it")
  case (Pair iv reason)
  show ?thesis
  proof (cases iv)
    case None
    with Pair show ?thesis by (simp add: current_rows_def)
  next
    case (Some p)
    obtain s e where p: "p = (s, e)" by (cases p)
    have ok: "reason = ''ok''"
      using item_interval_debug_Some[of now_dt it s e reason] Pair Some p by auto
    show ?thesis
      using Pair Some p ok current_progress_inside[of s now_dt e]
      by (auto simp: current_rows_def entry_row_def)
  qed
qed

text \<open>
  C4. An entry is in the current bucket (the sorted \<^verbatim>\<open>now_list\<close>, before the cut to six)
  exactly when it resolves and \<open>start_dt \<le> now_dt < end_dt\<close>; its progress is
  \<open>(now_dt - start_dt) / (end_dt - start_dt)\<close> clamped to the unit interval. The progress
  expression gives 0 for a zero or negative duration. An entry from 09:00 to 10:00 whose
  day code is the weekday of the reference date, evaluated at 09:30 of that date, is current
  with progress one half.
\<close>

theorem current_bucket:
  "(r \<in> set (fst (sorted_lists now_dt items)) \<longleftrightarrow>
      (\<exists>it start_dt end_dt.
         it \<in> set items \<and>
         item_interval_debug now_dt it = (Some (start_dt, end_dt), ''ok'') \<and>
         start_dt \<le> now_dt \<and> now_dt < end_dt \<and>
         r = (start it, end_str it, activity it, teacher it, location it, tag it,
              max 0 (min 1 (total_seconds (now_dt - start_dt) / total_seconds (end_dt - start_dt))),
              end_dt, start_dt))) \<and>
   (total_s \<le> 0 \<longrightarrow> current_progress total_s done_s = 0) \<and>
   (0 < total_s \<longrightarrow> current_progress total_s done_s = max 0 (min 1 (done_s / total_s))) \<and>
   (DAY_TO_WD (py_upper (py_strip (day e))) = Some (weekday d) \<and>
    start e = ''09:00'' \<and> end_str e = ''10:00'' \<longrightarrow>
      compute_now_next (combine d \<lparr>hour = 9, minute = 30\<rparr>) [e] =
        ([(''09:00'', ''10:00'', activity e, teacher e, location e, tag e, 1 / 2)], []))"
proof (intro conjI impI)
  show "r \<in> set (fst (sorted_lists now_dt items)) \<longleftrightarrow>
      (\<exists>it start_dt end_dt.
         it \<in> set items \<and>
         item_interval_debug now_dt it = (Some (start_dt, end_dt), ''ok'') \<and>
         start_dt \<le> now_dt \<and> now_dt < end_dt \<and>
         r = (start it, end_str it, activity it, teacher it, location it, tag it,
              max 0 (min 1 (total_seconds (now_dt - start_dt) / total_seconds (end_dt - start_dt))),
              end_dt, start_dt))"
    by (simp add: sorted_lists_rows in_current_rows) blast
next
  assume "total_s \<le> 0"
  then show "current_progress total_s done_s = 0" by (simp add: current_progress_def)
next
  assume "0 < total_s"
  then show "current_progress total_s done_s = max 0 (min 1 (done_s / total_s))"
    by (simp add: current_progress_def)
next
  assume a: "DAY_TO_WD (py_upper (py_strip (day e))) = Some (weekday d) \<and>
             start e = ''09:00'' \<and> end_str e = ''10:00''"
  let ?t = "\<lparr>hour = 9, minute = 30\<rparr>"
  let ?now = "combine d ?t"
  have t930: "parse_time_obj ''09:30'' = Some ?t" by code_simp
  have t900: "parse_time_obj ''09:00'' = Some \<lparr>hour = 9, minute = 0\<rparr>" by code_simp
  have t1000: "parse_time_obj ''10:00'' = Some \<lparr>hour = 10, minute = 0\<rparr>" by code_simp
  have dn: "date_of ?now = d" using date_of_combine[OF t930] .
  have wd: "weekday (d - 1) \<noteq> weekday d" by (simp add: weekday_def) presburger
  have base: "best_date_for_daycode ?now (day e) = Some d"
    using a dn wd by (simp add: best_date_for_daycode_def Let_def)
  have iv: "item_interval_debug ?now e =
              (Some (combine d \<lparr>hour = 9, minute = 0\<rparr>, combine d \<lparr>hour = 10, minute = 0\<rparr>), ''ok'')"
    using a base by (simp add: item_interval_debug_def t900 t1000 Let_def combine_def timedelta_minutes_def)
  have cur: "current_rows ?now e =
               [(''09:00'', ''10:00'', activity e, teacher e, location e, tag e, 1 / 2,
                 combine d \<lparr>hour = 10, minute = 0\<rparr>, combine d \<lparr>hour = 9, minute = 0\<rparr>)]"
    unfolding current_rows_def iv
    using a by (simp add: entry_row_def current_progress_def total_seconds_def
                   combine_def timedelta_minutes_def)
  have nxt: "upcoming_rows ?now (?now + timedelta_minutes 120) e = []"
    unfolding upcoming_rows_def iv
    by (simp add: combine_def timedelta_minutes_def)
  show "compute_now_next ?now [e] =
        ([(''09:00'', ''10:00'', activity e, teacher e, location e, tag e, 1 / 2)], [])"
    by (simp add: compute_now_next_def sorted_lists_rows cur nxt row_card_def)
qed

theorem current_bucket_witness:
  "DAY_TO_WD (py_upper (py_strip (day morning_class))) = Some (weekday 739000) \<and>
   compute_now_next (combine 739000 \<lparr>hour = 9, minute = 30\<rparr>) [morning_class] =
     ([(''09:00'', ''10:00'', ''Yoga'', ''Bia'', ''Sala 2'', ''MENOR'', 1 / 2)], []) \<and>
   current_progress 0 5 = 0 \<and> current_progress 4 1 = 1 / 4 \<and>
   (''09:00'', ''10:00'', ''Yoga'', ''Bia'', ''Sala 2'', ''MENOR'', 1 / 2,
      combine 739000 \<lparr>hour = 10, minute = 0\<rparr>, combine 739000 \<lparr>hour = 9, minute = 0\<rparr>)
     \<in> set (fst (sorted_lists (combine 739000 \<lparr>hour = 9, minute = 30\<rparr>) [morning_class]))"
proof -
  let ?now = "combine 739000 \<lparr>hour = 9, minute = 30\<rparr>"
  let ?s = "combine 739000 \<lparr>hour = 9, minute = 0\<rparr>"
  let ?e = "combine 739000 \<lparr>hour = 10, minute = 0\<rparr>"
  let ?r = "(''09:00'', ''10:00'', ''Yoga'', ''Bia'', ''Sala 2'', ''MENOR'', 1 / 2 :: rat, ?e, ?s)"
  have wd: "DAY_TO_WD (py_upper (py_strip (day morning_class))) = Some (weekday 739000)"
    by code_simp
  have f: "start morning_class = ''09:00'' \<and> end_str morning_class = ''10:00'' \<and>
           activity morning_class = ''Yoga'' \<and> teacher morning_class = ''Bia'' \<and>
           location morning_class = ''Sala 2'' \<and> tag morning_class = ''MENOR''"
    by (simp add: morning_class_def)
  have iv: "item_interval_debug ?now morning_class = (Some (?s, ?e), ''ok'')"
    by code_simp
  have ord: "?s \<le> ?now \<and> ?now < ?e"
    by (simp add: combine_def timedelta_minutes_def)
  have half: "max 0 (min 1 (total_seconds (?now - ?s) / total_seconds (?e - ?s))) = 1 / 2"
    by (simp add: combine_def timedelta_minutes_def total_seconds_def)
  have "\<exists>it start_dt end_dt.
         it \<in> set [morning_class] \<and>
         item_interval_debug ?now it = (Some (start_dt, end_dt), ''ok'') \<and>
         start_dt \<le> ?now \<and> ?now < end_dt \<and>
         ?r = (start it, end_str it, activity it, teacher it, location it, tag it,
              max 0 (min 1 (total_seconds (?now - start_dt) / total_seconds (end_dt - start_dt))),
              end_dt, start_dt)"
    apply (rule exI[of _ morning_class], rule exI[of _ ?s], rule exI[of _ ?e])
    apply (intro conjI)
        apply simp
       apply (rule iv)
      apply (rule conjunct1[OF ord])
     apply (rule conjunct2[OF ord])
    apply (simp only: f half)
    done
  then have mem: "?r \<in> set (fst (sorted_lists ?now [morning_class]))"
    using current_bucket[of ?r ?now "[morning_class]" 0 5 morning_class 739000]
    by blast
  show ?thesis
    using wd f mem
      current_bucket[of ?r ?now "[morning_class]" 0 5 morning_class 739000]
      current_bucket[of ?r ?now "[morning_class]" 4 1 morning_class 739000]
    by simp
qed

section \<open>The cut to six\<close>

lemma compute_now_next_take:
  "compute_now_next now_dt items =
     (map row_card (take 6 (fst (sorted_lists now_dt items))),
      map row_card (take 6 (snd (sorted_lists now_dt items))))"
  by (simp add: compute_now_next_def Let_def take_map split: prod.splits)

section \<open>The upcoming bucket\<close>

lemma upcoming_progress_window:
  assumes "now_dt \<le> start_dt"
  shows "upcoming_progress (total_seconds (now_dt + timedelta_minutes 120 - now_dt))
           (total_seconds (start_dt - now_dt)) =
         max (1 / 50) (max 0 (min 1
           (1 - total_seconds (start_dt - now_dt) / total_seconds (timedelta_minutes 120))))"
  by (simp add: upcoming_progress_def total_seconds_def timedelta_minutes_def)

lemma in_upcoming_rows:
  "r \<in> set (upcoming_rows now_dt (now_dt + timedelta_minutes 120) it) \<longleftrightarrow>
     (\<exists>start_dt end_dt.
        item_interval_debug now_dt it = (Some (start_dt, end_dt), ''ok'') \<and>
        now_dt < start_dt \<and> start_dt \<le> now_dt + timedelta_minutes 120 \<and>
        r = (start it, end_str it, activity it, teacher it, location it, tag it,
             max (1 / 50) (max 0 (min 1
               (1 - total_seconds (start_dt - now_dt) / total_seconds (timedelta_minutes 120)))),
             end_dt, start_dt))"
proof (cases "item_interval_debug now_dt it")
  case (Pair iv reason)
  show ?thesis
  proof (cases iv)
    case None
    with Pair show ?thesis by (simp add: upcoming_rows_def)
  next
    case (Some p)
    obtain s e where p: "p = (s, e)" by (cases p)
    have ok: "reason = ''ok''"
      using item_interval_debug_Some[of now_dt it s e reason] Pair Some p by auto
    have ord: "s < e"
      using item_interval_debug_order[of now_dt it s e reason] Pair Some p by simp
    have branch: "(\<not> (s \<le> now_dt \<and> now_dt < e) \<and> now_dt \<le> s) \<longleftrightarrow> now_dt < s"
      using ord by auto
    show ?thesis
    proof (cases "now_dt < s \<and> s \<le> now_dt + timedelta_minutes 120")
      case True
      then have "upcoming_rows now_dt (now_dt + timedelta_minutes 120) it =
                   [entry_row it (upcoming_progress
                      (total_seconds (now_dt + timedelta_minutes 120 - now_dt))
                      (total_seconds (s - now_dt))) e s]"
        using Pair Some p ord by (simp add: upcoming_rows_def)
      then show ?thesis
        using True Pair Some p ok upcoming_progress_window[of now_dt s]
        by (auto simp: entry_row_def)
    next
      case False
      then have "upcoming_rows now_dt (now_dt + timedelta_minutes 120) it = []"
        using Pair Some p ord by (auto simp: upcoming_rows_def)
      then show ?thesis using False Pair Some p by auto
    qed
  qed
qed

lemma upcoming_value_bounds:
  assumes "now_dt < start_dt"
  shows "1 / 50 \<le> max (1 / 50) (max 0 (min 1
           (1 - total_seconds (start_dt - now_dt) / total_seconds (timedelta_minutes 120)))) \<and>
         max (1 / 50) (max 0 (min 1
           (1 - total_seconds (start_dt - now_dt) / total_seconds (timedelta_minutes 120)))) < (1 :: rat)"
  using assms by (simp add: total_seconds_def timedelta_minutes_def)

text \<open>
  C3 (as amended). An entry is in the upcoming bucket (the sorted \<^verbatim>\<open>next_list\<close>,
  before the cut to six) exactly when it resolves and
  \<open>now_dt < start_dt \<le> now_dt + 120 minutes\<close>: the test is the \<^verbatim>\<open>elif\<close> of the
  current test, so an entry that starts at the reference instant is current. Its progress is
  \<open>1 - (start_dt - now_dt) / (120 minutes)\<close>, clamped to the unit interval and raised to
  the floor \<open>1/50\<close>; it lies in \<open>[1/50, 1)\<close>. The window always lasts 120 minutes; for
  a window of no or negative length the progress expression gives the floor \<open>1/50\<close>.
\<close>

theorem upcoming_bucket:
  "(r \<in> set (snd (sorted_lists now_dt items)) \<longleftrightarrow>
      (\<exists>it start_dt end_dt.
         it \<in> set items \<and>
         item_interval_debug now_dt it = (Some (start_dt, end_dt), ''ok'') \<and>
         now_dt < start_dt \<and> start_dt \<le> now_dt + timedelta_minutes 120 \<and>
         r = (start it, end_str it, activity it, teacher it, location it, tag it,
              max (1 / 50) (max 0 (min 1
                (1 - total_seconds (start_dt - now_dt) / total_seconds (timedelta_minutes 120)))),
              end_dt, start_dt))) \<and>
   (r \<in> set (snd (sorted_lists now_dt items)) \<longrightarrow> 1 / 50 \<le> row_progress r \<and> row_progress r < 1) \<and>
   (total_win \<le> 0 \<longrightarrow> upcoming_progress total_win remaining = 1 / 50) \<and>
   (0 < total_win \<longrightarrow>
      upcoming_progress total_win remaining = max (1 / 50) (max 0 (min 1 (1 - remaining / total_win))))"
proof (intro conjI impI)
  show iff: "r \<in> set (snd (sorted_lists now_dt items)) \<longleftrightarrow>
      (\<exists>it start_dt end_dt.
         it \<in> set items \<and>
         item_interval_debug now_dt it = (Some (start_dt, end_dt), ''ok'') \<and>
         now_dt < start_dt \<and> start_dt \<le> now_dt + timedelta_minutes 120 \<and>
         r = (start it, end_str it, activity it, teacher it, location it, tag it,
              max (1 / 50) (max 0 (min 1
                (1 - total_seconds (start_dt - now_dt) / total_seconds (timedelta_minutes 120)))),
              end_dt, start_dt))"
    by (simp add: sorted_lists_rows in_upcoming_rows) blast
  {
    assume "r \<in> set (snd (sorted_lists now_dt items))"
    then obtain it :: ClassItem and s e where
      s: "now_dt < s" and
      r: "r = (start it, end_str it, activity it, teacher it, location it, tag it,
              max (1 / 50) (max 0 (min 1
                (1 - total_seconds (s - now_dt) / total_seconds (timedelta_minutes 120)))),
              e, s)"
      using iff by blast
    have p: "row_progress r = max (1 / 50) (max 0 (min 1
                (1 - total_seconds (s - now_dt) / total_seconds (timedelta_minutes 120))))"
      by (simp add: r row_progress_def)
    show "1 / 50 \<le> row_progress r" "row_progress r < 1"
      using upcoming_value_bounds[OF s] unfolding p by simp_all
  }
next
  assume "total_win \<le> 0"
  then show "upcoming_progress total_win remaining = 1 / 50"
    by (simp add: upcoming_progress_def)
next
  assume "0 < total_win"
  then show "upcoming_progress total_win remaining =
               max (1 / 50) (max 0 (min 1 (1 - remaining / total_win)))"
    by (simp add: upcoming_progress_def)
qed

text \<open>
  At 08:30 of a Wednesday the Wednesday class of 09:00 is upcoming with progress 3/4; at
  06:30, 150 minutes before its start, it is in neither list.
\<close>

theorem upcoming_bucket_witness:
  "(''09:00'', ''10:00'', ''Yoga'', ''Bia'', ''Sala 2'', ''MENOR'', 3 / 4,
      combine 739000 \<lparr>hour = 10, minute = 0\<rparr>, combine 739000 \<lparr>hour = 9, minute = 0\<rparr>)
     \<in> set (snd (sorted_lists (combine 739000 \<lparr>hour = 8, minute = 30\<rparr>) [morning_class])) \<and>
   (1 / 50 :: rat) \<le> 3 / 4 \<and> (3 / 4 :: rat) < 1 \<and>
   compute_now_next (combine 739000 \<lparr>hour = 6, minute = 30\<rparr>) [morning_class] = ([], []) \<and>
   upcoming_progress 0 7 = 1 / 50 \<and> upcoming_progress 4 1 = 3 / 4"
proof -
  let ?now = "combine 739000 \<lparr>hour = 8, minute = 30\<rparr>"
  let ?s = "combine 739000 \<lparr>hour = 9, minute = 0\<rparr>"
  let ?e = "combine 739000 \<lparr>hour = 10, minute = 0\<rparr>"
  let ?r = "(''09:00'', ''10:00'', ''Yoga'', ''Bia'', ''Sala 2'', ''MENOR'', 3 / 4 :: rat, ?e, ?s)"
  have f: "start morning_class = ''09:00''" "end_str morning_class = ''10:00''"
          "activity morning_class = ''Yoga''" "teacher morning_class = ''Bia''"
          "location morning_class = ''Sala 2''" "tag morning_class = ''MENOR''"
    by (simp_all add: morning_class_def)
  have iv: "item_interval_debug ?now morning_class = (Some (?s, ?e), ''ok'')"
    by code_simp
  have ord: "?now < ?s" "?s \<le> ?now + timedelta_minutes 120"
    by (simp_all add: combine_def timedelta_minutes_def)
  have val: "max (1 / 50) (max 0 (min 1
               (1 - total_seconds (?s - ?now) / total_seconds (timedelta_minutes 120)))) = (3 / 4 :: rat)"
    by (simp add: combine_def timedelta_minutes_def total_seconds_def)
  have ex: "\<exists>it start_dt end_dt.
         it \<in> set [morning_class] \<and>
         item_interval_debug ?now it = (Some (start_dt, end_dt), ''ok'') \<and>
         ?now < start_dt \<and> start_dt \<le> ?now + timedelta_minutes 120 \<and>
         ?r = (start it, end_str it, activity it, teacher it, location it, tag it,
              max (1 / 50) (max 0 (min 1
                (1 - total_seconds (start_dt - ?now) / total_seconds (timedelta_minutes 120)))),
              end_dt, start_dt)"
    apply (rule exI[of _ morning_class], rule exI[of _ ?s], rule exI[of _ ?e])
    apply (intro conjI)
        apply simp
       apply (rule iv)
      apply (rule ord(1))
     apply (rule ord(2))
    apply (simp only: f val)
    done
  have mem: "?r \<in> set (snd (sorted_lists ?now [morning_class]))"
    using ex upcoming_bucket[of ?r ?now "[morning_class]" 0 7] by blast
  have far: "compute_now_next (combine 739000 \<lparr>hour = 6, minute = 30\<rparr>) [morning_class] = ([], [])"
    by code_simp
  show ?thesis
    using mem far upcoming_bucket[of ?r ?now "[morning_class]" 0 7]
      upcoming_bucket[of ?r ?now "[morning_class]" 4 1]
    by (simp add: row_progress_def)
qed

text \<open>
  A class that starts exactly at the reference instant meets
  \<open>now_dt \<le> start_dt \<le> now_dt + 120 minutes\<close>, and the upcoming list is empty.
\<close>

theorem upcoming_excludes_start_at_reference:
  "item_interval_debug (combine 739000 \<lparr>hour = 9, minute = 0\<rparr>) morning_class =
     (Some (combine 739000 \<lparr>hour = 9, minute = 0\<rparr>, combine 739000 \<lparr>hour = 10, minute = 0\<rparr>), ''ok'') \<and>
   combine 739000 \<lparr>hour = 9, minute = 0\<rparr> \<le> combine 739000 \<lparr>hour = 9, minute = 0\<rparr> \<and>
   combine 739000 \<lparr>hour = 9, minute = 0\<rparr>
     \<le> combine 739000 \<lparr>hour = 9, minute = 0\<rparr> + timedelta_minutes 120 \<and>
   snd (sorted_lists (combine 739000 \<lparr>hour = 9, minute = 0\<rparr>) [morning_class]) = [] \<and>
   compute_now_next (combine 739000 \<lparr>hour = 9, minute = 0\<rparr>) [morning_class] =
     ([(''09:00'', ''10:00'', ''Yoga'', ''Bia'', ''Sala 2'', ''MENOR'', 0)], [])"
proof -
  have a: "item_interval_debug (combine 739000 \<lparr>hour = 9, minute = 0\<rparr>) morning_class =
     (Some (combine 739000 \<lparr>hour = 9, minute = 0\<rparr>, combine 739000 \<lparr>hour = 10, minute = 0\<rparr>), ''ok'')"
    by code_simp
  have b: "snd (sorted_lists (combine 739000 \<lparr>hour = 9, minute = 0\<rparr>) [morning_class]) = []"
    by code_simp
  have c: "compute_now_next (combine 739000 \<lparr>hour = 9, minute = 0\<rparr>) [morning_class] =
     ([(''09:00'', ''10:00'', ''Yoga'', ''Bia'', ''Sala 2'', ''MENOR'', 0)], [])"
    by code_simp
  show ?thesis using a b c by (simp add: timedelta_minutes_def)
qed

section \<open>The order of the two lists\<close>

lemma end_key: "(\<lambda>(a, b, c, d, e, f, g, end_dt, start_dt). end_dt) = row_end"
  by (simp add: row_end_def)

lemma start_key: "(\<lambda>(a, b, c, d, e, f, g, end_dt, start_dt). start_dt) = row_start"
  by (simp add: row_start_def)

lemma end_key_eq: "(\<lambda>(a, b, c, d, e, f, g, end_dt, start_dt). end_dt = k) = (\<lambda>r. row_end r = k)"
  by (auto simp: row_end_def fun_eq_iff)

lemma start_key_eq: "(\<lambda>(a, b, c, d, e, f, g, end_dt, start_dt). start_dt = k) = (\<lambda>r. row_start r = k)"
  by (auto simp: row_start_def fun_eq_iff)

text \<open>
  C6. The result is the cards of the first six rows of the two sorted lists. Every row of
  the first list carries, as its last two components, the resolved end and start instant
  of an entry of the collection, and so does every row of the second. The first list is
  ascending in the resolved end instant, the second ascending in the resolved start
  instant, and so are their first six rows; both sorts keep rows of equal instant in the
  order of the entries, and neither loses or invents a row. Each result has six cards when
  six or more entries qualify and all of them otherwise, so never more than six.
\<close>

theorem compute_now_next_sorted_capped:
  "compute_now_next now_dt items =
     (map row_card (take 6 (fst (sorted_lists now_dt items))),
      map row_card (take 6 (snd (sorted_lists now_dt items)))) \<and>
   (r \<in> set (fst (sorted_lists now_dt items)) \<longrightarrow>
      (\<exists>it s e p. it \<in> set items \<and> item_interval_debug now_dt it = (Some (s, e), ''ok'') \<and>
         r = (start it, end_str it, activity it, teacher it, location it, tag it, p, e, s))) \<and>
   (r \<in> set (snd (sorted_lists now_dt items)) \<longrightarrow>
      (\<exists>it s e p. it \<in> set items \<and> item_interval_debug now_dt it = (Some (s, e), ''ok'') \<and>
         r = (start it, end_str it, activity it, teacher it, location it, tag it, p, e, s))) \<and>
   sorted (map (\<lambda>(a, b, c, d, e, f, g, end_dt, start_dt). end_dt)
             (fst (sorted_lists now_dt items))) \<and>
   sorted (map (\<lambda>(a, b, c, d, e, f, g, end_dt, start_dt). start_dt)
             (snd (sorted_lists now_dt items))) \<and>
   sorted (map (\<lambda>(a, b, c, d, e, f, g, end_dt, start_dt). end_dt)
             (take 6 (fst (sorted_lists now_dt items)))) \<and>
   sorted (map (\<lambda>(a, b, c, d, e, f, g, end_dt, start_dt). start_dt)
             (take 6 (snd (sorted_lists now_dt items)))) \<and>
   mset (fst (sorted_lists now_dt items)) = mset (concat (map (current_rows now_dt) items)) \<and>
   mset (snd (sorted_lists now_dt items)) =
     mset (concat (map (upcoming_rows now_dt (now_dt + timedelta_minutes 120)) items)) \<and>
   filter (\<lambda>(a, b, c, d, e, f, g, end_dt, start_dt). end_dt = k) (fst (sorted_lists now_dt items)) =
     filter (\<lambda>(a, b, c, d, e, f, g, end_dt, start_dt). end_dt = k)
       (concat (map (current_rows now_dt) items)) \<and>
   filter (\<lambda>(a, b, c, d, e, f, g, end_dt, start_dt). start_dt = k) (snd (sorted_lists now_dt items)) =
     filter (\<lambda>(a, b, c, d, e, f, g, end_dt, start_dt). start_dt = k)
       (concat (map (upcoming_rows now_dt (now_dt + timedelta_minutes 120)) items)) \<and>
   length (fst (compute_now_next now_dt items)) = min 6 (length (fst (sorted_lists now_dt items))) \<and>
   length (snd (compute_now_next now_dt items)) = min 6 (length (snd (sorted_lists now_dt items))) \<and>
   length (fst (compute_now_next now_dt items)) \<le> 6 \<and>
   length (snd (compute_now_next now_dt items)) \<le> 6"
proof -
  have o1: "r \<in> set (fst (sorted_lists now_dt items)) \<longrightarrow>
      (\<exists>it s e p. it \<in> set items \<and> item_interval_debug now_dt it = (Some (s, e), ''ok'') \<and>
         r = (start it, end_str it, activity it, teacher it, location it, tag it, p, e, s))"
    by (simp add: sorted_lists_rows in_current_rows) blast
  have o2: "r \<in> set (snd (sorted_lists now_dt items)) \<longrightarrow>
      (\<exists>it s e p. it \<in> set items \<and> item_interval_debug now_dt it = (Some (s, e), ''ok'') \<and>
         r = (start it, end_str it, activity it, teacher it, location it, tag it, p, e, s))"
    by (simp add: sorted_lists_rows in_upcoming_rows) blast
  have s1: "sorted (map row_end (fst (sorted_lists now_dt items)))"
    by (simp add: sorted_lists_rows)
  have s2: "sorted (map row_start (snd (sorted_lists now_dt items)))"
    by (simp add: sorted_lists_rows)
  have t1: "sorted (map row_end (take 6 (fst (sorted_lists now_dt items))))"
    using s1 sorted_wrt_take[of "(\<le>)" "map row_end (fst (sorted_lists now_dt items))" 6]
    by (simp add: take_map)
  have t2: "sorted (map row_start (take 6 (snd (sorted_lists now_dt items))))"
    using s2 sorted_wrt_take[of "(\<le>)" "map row_start (snd (sorted_lists now_dt items))" 6]
    by (simp add: take_map)
  have m: "mset (fst (sorted_lists now_dt items)) = mset (concat (map (current_rows now_dt) items))"
     "mset (snd (sorted_lists now_dt items)) =
        mset (concat (map (upcoming_rows now_dt (now_dt + timedelta_minutes 120)) items))"
    by (simp_all add: sorted_lists_rows)
  have st: "filter (\<lambda>r. row_end r = k) (fst (sorted_lists now_dt items)) =
              filter (\<lambda>r. row_end r = k) (concat (map (current_rows now_dt) items))"
     "filter (\<lambda>r. row_start r = k) (snd (sorted_lists now_dt items)) =
        filter (\<lambda>r. row_start r = k)
          (concat (map (upcoming_rows now_dt (now_dt + timedelta_minutes 120)) items))"
    by (simp_all add: sorted_lists_rows sort_key_stable)
  have l: "length (fst (compute_now_next now_dt items)) = min 6 (length (fst (sorted_lists now_dt items)))"
     "length (snd (compute_now_next now_dt items)) = min 6 (length (snd (sorted_lists now_dt items)))"
    by (simp_all add: compute_now_next_take min.commute)
  show ?thesis
    unfolding end_key start_key end_key_eq start_key_eq
    using o1 o2 s1 s2 t1 t2 m st l compute_now_next_take[of now_dt items] by simp
qed

text \<open>
  At 09:30 of a Wednesday, seven of the nine classes run and two start within two hours.
  The current cards come out by end (09:45, 10:00, 10:30, 11:00, 11:30, 12:00), the class
  that ends at 13:00 is cut, and the upcoming cards come out by start (10:00, 10:30).
\<close>

theorem compute_now_next_sorted_capped_witness:
  "compute_now_next (combine 739000 \<lparr>hour = 9, minute = 30\<rparr>) busy_wednesday =
     ([(''09:00'', ''09:45'', ''G'', ''Ana'', ''Quadra'', ''GERAL'', 2 / 3),
       (''09:00'', ''10:00'', ''B'', ''Ana'', ''Quadra'', ''GERAL'', 1 / 2),
       (''09:00'', ''10:30'', ''D'', ''Ana'', ''Quadra'', ''GERAL'', 1 / 3),
       (''09:00'', ''11:00'', ''A'', ''Ana'', ''Quadra'', ''GERAL'', 1 / 4),
       (''09:00'', ''11:30'', ''F'', ''Ana'', ''Quadra'', ''GERAL'', 1 / 5),
       (''09:00'', ''12:00'', ''C'', ''Ana'', ''Quadra'', ''GERAL'', 1 / 6)],
      [(''10:00'', ''11:00'', ''I'', ''Ana'', ''Quadra'', ''GERAL'', 3 / 4),
       (''10:30'', ''11:00'', ''H'', ''Ana'', ''Quadra'', ''GERAL'', 1 / 2)]) \<and>
   map (\<lambda>(a, b, c, d, e, f, g, end_dt, start_dt). end_dt)
       (fst (sorted_lists (combine 739000 \<lparr>hour = 9, minute = 30\<rparr>) busy_wednesday)) =
     [combine 739000 \<lparr>hour = 9, minute = 45\<rparr>, combine 739000 \<lparr>hour = 10, minute = 0\<rparr>,
      combine 739000 \<lparr>hour = 10, minute = 30\<rparr>, combine 739000 \<lparr>hour = 11, minute = 0\<rparr>,
      combine 739000 \<lparr>hour = 11, minute = 30\<rparr>, combine 739000 \<lparr>hour = 12, minute = 0\<rparr>,
      combine 739000 \<lparr>hour = 13, minute = 0\<rparr>] \<and>
   map (\<lambda>(a, b, c, d, e, f, g, end_dt, start_dt). start_dt)
       (snd (sorted_lists (combine 739000 \<lparr>hour = 9, minute = 30\<rparr>) busy_wednesday)) =
     [combine 739000 \<lparr>hour = 10, minute = 0\<rparr>, combine 739000 \<lparr>hour = 10, minute = 30\<rparr>] \<and>
   (''09:00'', ''09:45'', ''G'', ''Ana'', ''Quadra'', ''GERAL'', 2 / 3,
      combine 739000 \<lparr>hour = 9, minute = 45\<rparr>, combine 739000 \<lparr>hour = 9, minute = 0\<rparr>)
     \<in> set (fst (sorted_lists (combine 739000 \<lparr>hour = 9, minute = 30\<rparr>) busy_wednesday)) \<and>
   item_interval_debug (combine 739000 \<lparr>hour = 9, minute = 30\<rparr>)
       (class_from_to ''09:00'' ''09:45'' ''G'') =
     (Some (combine 739000 \<lparr>hour = 9, minute = 0\<rparr>, combine 739000 \<lparr>hour = 9, minute = 45\<rparr>), ''ok'') \<and>
   length (fst (sorted_lists (combine 739000 \<lparr>hour = 9, minute = 30\<rparr>) busy_wednesday)) = 7 \<and>
   length (fst (compute_now_next (combine 739000 \<lparr>hour = 9, minute = 30\<rparr>) busy_wednesday)) = 6"
proof -
  let ?now = "combine 739000 \<lparr>hour = 9, minute = 30\<rparr>"
  let ?g = "(''09:00'', ''09:45'', ''G'', ''Ana'', ''Quadra'', ''GERAL'', 2 / 3 :: rat,
      combine 739000 \<lparr>hour = 9, minute = 45\<rparr>, combine 739000 \<lparr>hour = 9, minute = 0\<rparr>)"
  have rows: "fst (sorted_lists ?now busy_wednesday) =
     [?g,
      (''09:00'', ''10:00'', ''B'', ''Ana'', ''Quadra'', ''GERAL'', 1 / 2,
         combine 739000 \<lparr>hour = 10, minute = 0\<rparr>, combine 739000 \<lparr>hour = 9, minute = 0\<rparr>),
      (''09:00'', ''10:30'', ''D'', ''Ana'', ''Quadra'', ''GERAL'', 1 / 3,
         combine 739000 \<lparr>hour = 10, minute = 30\<rparr>, combine 739000 \<lparr>hour = 9, minute = 0\<rparr>),
      (''09:00'', ''11:00'', ''A'', ''Ana'', ''Quadra'', ''GERAL'', 1 / 4,
         combine 739000 \<lparr>hour = 11, minute = 0\<rparr>, combine 739000 \<lparr>hour = 9, minute = 0\<rparr>),
      (''09:00'', ''11:30'', ''F'', ''Ana'', ''Quadra'', ''GERAL'', 1 / 5,
         combine 739000 \<lparr>hour = 11, minute = 30\<rparr>, combine 739000 \<lparr>hour = 9, minute = 0\<rparr>),
      (''09:00'', ''12:00'', ''C'', ''Ana'', ''Quadra'', ''GERAL'', 1 / 6,
         combine 739000 \<lparr>hour = 12, minute = 0\<rparr>, combine 739000 \<lparr>hour = 9, minute = 0\<rparr>),
      (''09:00'', ''13:00'', ''E'', ''Ana'', ''Quadra'', ''GERAL'', 1 / 8,
         combine 739000 \<lparr>hour = 13, minute = 0\<rparr>, combine 739000 \<lparr>hour = 9, minute = 0\<rparr>)]"
    by code_simp
  have nexts: "snd (sorted_lists ?now busy_wednesday) =
     [(''10:00'', ''11:00'', ''I'', ''Ana'', ''Quadra'', ''GERAL'', 3 / 4,
         combine 739000 \<lparr>hour = 11, minute = 0\<rparr>, combine 739000 \<lparr>hour = 10, minute = 0\<rparr>),
      (''10:30'', ''11:00'', ''H'', ''Ana'', ''Quadra'', ''GERAL'', 1 / 2,
         combine 739000 \<lparr>hour = 11, minute = 0\<rparr>, combine 739000 \<lparr>hour = 10, minute = 30\<rparr>)]"
    by code_simp
  have iv: "item_interval_debug ?now (class_from_to ''09:00'' ''09:45'' ''G'') =
     (Some (combine 739000 \<lparr>hour = 9, minute = 0\<rparr>, combine 739000 \<lparr>hour = 9, minute = 45\<rparr>), ''ok'')"
    by code_simp
  have mem: "?g \<in> set (fst (sorted_lists ?now busy_wednesday))"
    by (simp only: rows list.set insertI1)
  show ?thesis
    using compute_now_next_sorted_capped[of ?now busy_wednesday ?g 0] mem iv
    by (simp add: rows nexts row_card_def)
qed

section \<open>Disjointness of the two results\<close>

lemma progress_gap:
  fixes t dur u :: int
  assumes dur: "0 < dur" "dur \<le> 86400000000"
      and u: "0 < u" "u \<le> 7200000000"
      and far: "86400000000 \<le> t + u"
      and t: "t < dur"
  shows "max (1 / 50) (max 0 (min 1
           (1 - total_seconds u / total_seconds (timedelta_minutes 120))))
           < max 0 (min 1 (total_seconds t / total_seconds dur))"
proof -
  let ?pa = "of_int t / of_int dur :: rat"
  let ?x = "1 - of_int u / 7200000000 :: rat"
  have dpos: "(0 :: rat) < of_int dur" using dur by simp
  have tpos: "0 \<le> t" using far u by linarith
  have pa_lt: "?pa < 1" using t dpos by (simp add: divide_less_eq)
  have pa_ge0: "0 \<le> ?pa" using tpos dpos by simp
  have "11 * dur \<le> 12 * t" using dur u far by linarith
  then have "(11 :: rat) * of_int dur \<le> 12 * of_int t"
    by (metis of_int_le_iff of_int_mult of_int_numeral)
  then have pa_big: "11 / 12 \<le> ?pa" using dpos by (simp add: le_divide_eq)
  have "(7200000000 - u) * dur \<le> (7200000000 - u) * 86400000000"
    using dur u by (intro mult_left_mono) simp_all
  moreover have "(7200000000 - u) * 86400000000 < t * 7200000000"
    using u far unfolding left_diff_distrib by linarith
  ultimately have "(7200000000 - u) * dur < t * 7200000000" by linarith
  then have "(of_int ((7200000000 - u) * dur) :: rat) < of_int (t * 7200000000)"
    by (simp only: of_int_less_iff)
  then have "(7200000000 - of_int u) * of_int dur < (of_int t :: rat) * 7200000000"
    by simp
  then have x_lt: "?x < ?pa" using dpos by (simp add: field_simps)
  have a: "max 0 (min 1 ?pa) = ?pa" using pa_lt pa_ge0 by simp
  have m: "min 1 ?x < ?pa" using x_lt by (simp add: min_less_iff_disj)
  have p0: "0 < ?pa"
  proof -
    have "(0 :: rat) < 11 / 12" by simp
    then show ?thesis using pa_big by (rule less_le_trans)
  qed
  have p1: "1 / 50 < ?pa"
  proof -
    have "(1 / 50 :: rat) < 11 / 12" by simp
    then show ?thesis using pa_big by (rule less_le_trans)
  qed
  have b: "max (1 / 50) (max 0 (min 1 ?x)) < ?pa"
    unfolding max_less_iff_conj by (intro conjI p1 p0 m)
  have c: "total_seconds t / total_seconds dur = ?pa"
    by (simp add: total_seconds_def)
  have d: "1 - total_seconds u / total_seconds (timedelta_minutes 120) = ?x"
    by (simp add: total_seconds_def timedelta_minutes_def)
  show ?thesis unfolding c d a by (rule b)
qed

lemma same_times_shift:
  assumes a: "item_interval_debug now_dt a = (Some (sa, ea), ra)"
      and b: "item_interval_debug now_dt b = (Some (sb, eb), rb)"
      and st: "start a = start b" and en: "end_str a = end_str b"
  shows "\<exists>k. sb = sa + k * usec_per_day \<and> eb = ea + k * usec_per_day"
proof -
  from item_interval_debug_Some[OF a] obtain base1 t1 u1 where
    a1: "parse_time_obj (start a) = Some t1" "parse_time_obj (end_str a) = Some u1"
        "sa = combine base1 t1"
        "ea = (if combine base1 u1 \<le> sa then combine base1 u1 + timedelta_days 1 else combine base1 u1)"
    by blast
  from item_interval_debug_Some[OF b] obtain base2 t2 u2 where
    b1: "parse_time_obj (start b) = Some t2" "parse_time_obj (end_str b) = Some u2"
        "sb = combine base2 t2"
        "eb = (if combine base2 u2 \<le> sb then combine base2 u2 + timedelta_days 1 else combine base2 u2)"
    by blast
  have same: "t2 = t1" "u2 = u1" using a1 b1 st en by simp_all
  have "sb = sa + (base2 - base1) * usec_per_day \<and> eb = ea + (base2 - base1) * usec_per_day"
    using a1 b1 same by (simp add: combine_def algebra_simps)
  then show ?thesis by blast
qed

lemma cards_differ:
  assumes ra: "ra \<in> set (current_rows now_dt a)"
      and rb: "rb \<in> set (upcoming_rows now_dt (now_dt + timedelta_minutes 120) b)"
  shows "row_card ra \<noteq> row_card rb"
proof
  assume eq: "row_card ra = row_card rb"
  from ra obtain sa ea where
    iva: "item_interval_debug now_dt a = (Some (sa, ea), ''ok'')" and
    ca: "sa \<le> now_dt" "now_dt < ea" and
    ra': "ra = (start a, end_str a, activity a, teacher a, location a, tag a,
                max 0 (min 1 (total_seconds (now_dt - sa) / total_seconds (ea - sa))), ea, sa)"
    unfolding in_current_rows by blast
  from rb obtain sb eb where
    ivb: "item_interval_debug now_dt b = (Some (sb, eb), ''ok'')" and
    cb: "now_dt < sb" "sb \<le> now_dt + timedelta_minutes 120" and
    rb': "rb = (start b, end_str b, activity b, teacher b, location b, tag b,
                max (1 / 50) (max 0 (min 1
                  (1 - total_seconds (sb - now_dt) / total_seconds (timedelta_minutes 120)))), eb, sb)"
    unfolding in_upcoming_rows by blast
  from eq have st: "start a = start b" and en: "end_str a = end_str b" and
    pr: "max 0 (min 1 (total_seconds (now_dt - sa) / total_seconds (ea - sa))) =
         max (1 / 50) (max 0 (min 1
           (1 - total_seconds (sb - now_dt) / total_seconds (timedelta_minutes 120))))"
    by (simp_all add: ra' rb' row_card_def)
  from same_times_shift[OF iva ivb st en] obtain k where
    k: "sb = sa + k * usec_per_day" by blast
  have "0 < k * usec_per_day" using k ca cb by linarith
  then have "0 < k" by (simp add: usec_per_day_def zero_less_mult_iff)
  then have "1 * usec_per_day \<le> k * usec_per_day"
    by (intro mult_right_mono) (simp_all add: usec_per_day_def)
  then have far: "86400000000 \<le> (now_dt - sa) + (sb - now_dt)"
    using k by (simp add: usec_per_day_def)
  have dur: "0 < ea - sa" "ea - sa \<le> 86400000000"
    using item_interval_debug_order[OF iva] by (simp_all add: usec_per_day_def)
  have u: "0 < sb - now_dt" "sb - now_dt \<le> 7200000000"
    using cb by (simp_all add: timedelta_minutes_def)
  have t: "now_dt - sa < ea - sa" using ca by simp
  from progress_gap[OF dur u far t] pr show False
    by simp
qed

lemma current_upcoming_cards_disjoint:
  "row_card ` set (fst (sorted_lists now_dt items)) \<inter>
   row_card ` set (snd (sorted_lists now_dt items)) = {}"
proof (rule ccontr)
  assume "row_card ` set (fst (sorted_lists now_dt items)) \<inter>
          row_card ` set (snd (sorted_lists now_dt items)) \<noteq> {}"
  then obtain ra rb where
    ra: "ra \<in> set (fst (sorted_lists now_dt items))" and
    rb: "rb \<in> set (snd (sorted_lists now_dt items))" and
    eq: "row_card ra = row_card rb"
    by blast
  from ra have "\<exists>a. ra \<in> set (current_rows now_dt a)"
    unfolding sorted_lists_rows by simp blast
  then obtain a where a: "ra \<in> set (current_rows now_dt a)" ..
  from rb have "\<exists>b. rb \<in> set (upcoming_rows now_dt (now_dt + timedelta_minutes 120) b)"
    unfolding sorted_lists_rows by simp blast
  then obtain b where b: "rb \<in> set (upcoming_rows now_dt (now_dt + timedelta_minutes 120) b)" ..
  from cards_differ[OF a b] eq show False by simp
qed

text \<open>
  C9. No row is in both sorted lists, and no card is in both results: a current card and
  an upcoming card always differ, even when two entries show the same texts. An entry
  whose resolved start is the reference instant ends after it, so it meets the upcoming
  condition as well; it contributes its row, with progress 0, to the current list, and no
  row of the upcoming list starts at the reference instant.
\<close>

theorem buckets_disjoint:
  "set (fst (sorted_lists now_dt items)) \<inter> set (snd (sorted_lists now_dt items)) = {} \<and>
   set (fst (compute_now_next now_dt items)) \<inter> set (snd (compute_now_next now_dt items)) = {} \<and>
   (it \<in> set items \<and> item_interval_debug now_dt it = (Some (now_dt, end_dt), reason) \<longrightarrow>
      now_dt < end_dt \<and> now_dt \<le> now_dt + timedelta_minutes 120 \<and>
      (start it, end_str it, activity it, teacher it, location it, tag it, 0, end_dt, now_dt)
        \<in> set (fst (sorted_lists now_dt items)) \<and>
      now_dt \<notin> row_start ` set (snd (sorted_lists now_dt items)))"
proof (intro conjI impI)
  show "set (fst (sorted_lists now_dt items)) \<inter> set (snd (sorted_lists now_dt items)) = {}"
    using current_upcoming_cards_disjoint[of now_dt items] by blast
next
  have "set (fst (compute_now_next now_dt items)) \<subseteq> row_card ` set (fst (sorted_lists now_dt items))"
    by (auto simp: compute_now_next_take dest: in_set_takeD)
  moreover
  have "set (snd (compute_now_next now_dt items)) \<subseteq> row_card ` set (snd (sorted_lists now_dt items))"
    by (auto simp: compute_now_next_take dest: in_set_takeD)
  ultimately
  show "set (fst (compute_now_next now_dt items)) \<inter> set (snd (compute_now_next now_dt items)) = {}"
    using current_upcoming_cards_disjoint[of now_dt items] by blast
next
  assume a: "it \<in> set items \<and> item_interval_debug now_dt it = (Some (now_dt, end_dt), reason)"
  then have iv: "item_interval_debug now_dt it = (Some (now_dt, end_dt), reason)" by simp
  have ok: "reason = ''ok''" using item_interval_debug_Some[OF iv] by blast
  show after: "now_dt < end_dt" using item_interval_debug_order[OF iv] by simp
  show "now_dt \<le> now_dt + timedelta_minutes 120" by (simp add: timedelta_minutes_def)
  have "(start it, end_str it, activity it, teacher it, location it, tag it, 0, end_dt, now_dt)
          \<in> set (current_rows now_dt it)"
    unfolding in_current_rows using iv ok after by (simp add: total_seconds_def)
  then show "(start it, end_str it, activity it, teacher it, location it, tag it, 0, end_dt, now_dt)
          \<in> set (fst (sorted_lists now_dt items))"
    using a by (auto simp: sorted_lists_rows)
  show "now_dt \<notin> row_start ` set (snd (sorted_lists now_dt items))"
    by (auto simp: sorted_lists_rows in_upcoming_rows row_start_def)
qed

text \<open>
  At 09:00 of a Wednesday, with the Wednesday class of 09:00 and the one of 23:30: the
  first is current with progress 0, and nothing is upcoming.
\<close>

theorem buckets_disjoint_witness:
  "morning_class \<in> set [morning_class, late_class] \<and>
   item_interval_debug (combine 739000 \<lparr>hour = 9, minute = 0\<rparr>) morning_class =
     (Some (combine 739000 \<lparr>hour = 9, minute = 0\<rparr>, combine 739000 \<lparr>hour = 10, minute = 0\<rparr>), ''ok'') \<and>
   (''09:00'', ''10:00'', ''Yoga'', ''Bia'', ''Sala 2'', ''MENOR'', 0,
      combine 739000 \<lparr>hour = 10, minute = 0\<rparr>, combine 739000 \<lparr>hour = 9, minute = 0\<rparr>)
     \<in> set (fst (sorted_lists (combine 739000 \<lparr>hour = 9, minute = 0\<rparr>) [morning_class, late_class])) \<and>
   combine 739000 \<lparr>hour = 9, minute = 0\<rparr>
     \<notin> row_start ` set (snd (sorted_lists (combine 739000 \<lparr>hour = 9, minute = 0\<rparr>)
                                 [morning_class, late_class])) \<and>
   set (fst (compute_now_next (combine 739000 \<lparr>hour = 9, minute = 0\<rparr>) [morning_class, late_class]))
     \<inter> set (snd (compute_now_next (combine 739000 \<lparr>hour = 9, minute = 0\<rparr>)
                   [morning_class, late_class])) = {}"
proof -
  let ?now = "combine 739000 \<lparr>hour = 9, minute = 0\<rparr>"
  have iv: "item_interval_debug ?now morning_class =
     (Some (?now, combine 739000 \<lparr>hour = 10, minute = 0\<rparr>), ''ok'')"
    by code_simp
  have f: "start morning_class = ''09:00''" "end_str morning_class = ''10:00''"
          "activity morning_class = ''Yoga''" "teacher morning_class = ''Bia''"
          "location morning_class = ''Sala 2''" "tag morning_class = ''MENOR''"
    by (simp_all add: morning_class_def)
  have m: "morning_class \<in> set [morning_class, late_class]" by simp
  show ?thesis
    using m iv
      buckets_disjoint[of ?now "[morning_class, late_class]" morning_class
        "combine 739000 \<lparr>hour = 10, minute = 0\<rparr>" "''ok''"]
    by (simp only: f) simp
qed

section \<open>The HTTP retrieval\<close>

lemma http_get_json_cases:
  "http_get_json opener =
     (case opener 1 of
        Returns body \<Rightarrow> (Inr body, [Open 1])
      | RaisesHTTPError \<Rightarrow> (Inl HTTPError, [Open 1])
      | _ \<Rightarrow>
          (case opener 2 of
             Returns body \<Rightarrow> (Inr body, [Open 1, Sleep 400, Open 2])
           | RaisesHTTPError \<Rightarrow> (Inl HTTPError, [Open 1, Sleep 400, Open 2])
           | RaisesURLError \<Rightarrow> (Inl URLError, [Open 1, Sleep 400, Open 2])
           | RaisesOther \<Rightarrow> (Inl OtherError, [Open 1, Sleep 400, Open 2])))"
  by (simp add: http_get_json_def split: attempt_outcome.splits)

text \<open>
  C7. The trace of a retrieval is one \<^verbatim>\<open>open\<close>, or one \<^verbatim>\<open>open\<close>, one sleep of
  0.4 s and a second \<^verbatim>\<open>open\<close>: never more than two attempts. An HTTPError of the first
  attempt leaves the function at once, with no sleep and no second attempt. A URLError or
  another exception of the first attempt is followed by the sleep and exactly one second
  attempt, whose outcome is the outcome of the retrieval: its body, or its exception,
  raised with no further attempt. A first attempt that succeeds returns its body.
\<close>

theorem http_get_json_two_attempts:
  "(snd (http_get_json opener) = [Open 1] \<or> snd (http_get_json opener) = [Open 1, Sleep 400, Open 2]) \<and>
   (opener 1 = RaisesHTTPError \<longrightarrow> http_get_json opener = (Inl HTTPError, [Open 1])) \<and>
   (opener 1 = Returns body \<longrightarrow> http_get_json opener = (Inr body, [Open 1])) \<and>
   (opener 1 = RaisesURLError \<or> opener 1 = RaisesOther \<longrightarrow>
      snd (http_get_json opener) = [Open 1, Sleep 400, Open 2] \<and>
      fst (http_get_json opener) =
        (case opener 2 of
           Returns body2 \<Rightarrow> Inr body2
         | RaisesHTTPError \<Rightarrow> Inl HTTPError
         | RaisesURLError \<Rightarrow> Inl URLError
         | RaisesOther \<Rightarrow> Inl OtherError))"
proof (intro conjI impI)
  show "snd (http_get_json opener) = [Open 1] \<or> snd (http_get_json opener) = [Open 1, Sleep 400, Open 2]"
    by (simp add: http_get_json_cases split: attempt_outcome.splits)
next
  assume "opener 1 = RaisesHTTPError"
  then show "http_get_json opener = (Inl HTTPError, [Open 1])"
    by (simp add: http_get_json_cases)
next
  assume "opener 1 = Returns body"
  then show "http_get_json opener = (Inr body, [Open 1])"
    by (simp add: http_get_json_cases)
next
  assume a: "opener 1 = RaisesURLError \<or> opener 1 = RaisesOther"
  then show "snd (http_get_json opener) = [Open 1, Sleep 400, Open 2]"
    by (auto simp: http_get_json_cases split: attempt_outcome.splits)
  from a show "fst (http_get_json opener) =
        (case opener 2 of
           Returns body2 \<Rightarrow> Inr body2
         | RaisesHTTPError \<Rightarrow> Inl HTTPError
         | RaisesURLError \<Rightarrow> Inl URLError
         | RaisesOther \<Rightarrow> Inl OtherError)"
    by (auto simp: http_get_json_cases split: attempt_outcome.splits)
qed

theorem http_get_json_two_attempts_witness:
  "flaky_net 1 = RaisesURLError \<and>
   http_get_json flaky_net = (Inr (JObj []), [Open 1, Sleep 400, Open 2]) \<and>
   forbidden_net 1 = RaisesHTTPError \<and>
   http_get_json forbidden_net = (Inl HTTPError, [Open 1]) \<and>
   down_net 1 = RaisesOther \<and>
   http_get_json down_net = (Inl OtherError, [Open 1, Sleep 400, Open 2])"
proof -
  have a: "flaky_net 1 = RaisesURLError" "flaky_net 2 = Returns (JObj [])"
    by (simp_all add: flaky_net_def)
  have b: "forbidden_net 1 = RaisesHTTPError" by (simp add: forbidden_net_def)
  have c: "down_net 1 = RaisesOther" "down_net 2 = RaisesOther" by (simp_all add: down_net_def)
  have fl: "http_get_json flaky_net = (Inr (JObj []), [Open 1, Sleep 400, Open 2])"
    using a http_get_json_two_attempts[of flaky_net JNull]
    by (simp add: prod_eq_iff)
  have fo: "http_get_json forbidden_net = (Inl HTTPError, [Open 1])"
    using b http_get_json_two_attempts[of forbidden_net JNull] by simp
  have dn: "http_get_json down_net = (Inl OtherError, [Open 1, Sleep 400, Open 2])"
    using c http_get_json_two_attempts[of down_net JNull]
    by (simp add: prod_eq_iff)
  show ?thesis using a b c fl fo dn by simp
qed

section \<open>The tomorrow label\<close>

lemma minmax_loop_ignores_time:
  "minmax_loop fl (map (\<lambda>(t, kvs). JObj ((''time'', t) # kvs)) pts) lo hi =
   minmax_loop fl (map (\<lambda>(t, kvs). JObj ((''time'', JNull) # kvs)) pts) lo hi"
proof (induction pts arbitrary: lo hi)
  case Nil
  show ?case by simp
next
  case (Cons p pts)
  obtain t kvs where p: "p = (t, kvs)" by (cases p)
  have d: "dict_get (JObj ((''time'', t) # kvs)) ''data'' (JObj []) =
           dict_get (JObj ((''time'', JNull) # kvs)) ''data'' (JObj [])"
    by simp
  show ?case
    by (simp add: p d Cons.IH split: sum.splits option.splits del: dict_get.simps)
qed

text \<open>
  C1, the code at two forecasts. The loop of \<^verbatim>\<open>_minmax_tomorrow\<close> visits every point
  and never reads a timestamp: replacing all timestamps leaves its result unchanged. For
  the forecast with a point of 11 February at 31 degrees and a point of 12 February at
  18.5 degrees, the range over the points of 12 February is 18 to 18, and the code returns
  18 and 31 and builds the label from them. For the forecast with the point of 11 February
  alone, no point falls on 12 February, and the label is built from 31 and 31; it is not
  the placeholder.
\<close>

theorem tomorrow_label_spans_all_points:
  "minmax_loop fl (map (\<lambda>(t, kvs). JObj ((''time'', t) # kvs)) pts) lo hi =
     minmax_loop fl (map (\<lambda>(t, kvs). JObj ((''time'', JNull) # kvs)) pts) lo hi \<and>
   spec_minmax_tomorrow float_of_json ''2026-02-12'' two_day_points = Inr (Some 18, Some 18) \<and>
   minmax_tomorrow float_of_json (JArr two_day_points) = Inr (Some 18, Some 31) \<and>
   extract_summary float_of_json (forecast_of two_day_points) 15 1770822000 =
     Inr \<lparr>ok = True, temp_c = Some 31,
          today_label = ''Hoje (tarde): C'' @ [CHR 0xC3, CHR 0xA9] @ ''u limpo'',
          tomorrow_label = tomorrow_range 18 31,
          symbol_code = JStr ''clearsky_day'', source = ''online'', cache_ts = JNum 1770822000\<rparr> \<and>
   spec_minmax_tomorrow float_of_json ''2026-02-12'' today_only_points = Inr (None, None) \<and>
   minmax_tomorrow float_of_json (JArr today_only_points) = Inr (Some 31, Some 31) \<and>
   extract_summary float_of_json (forecast_of today_only_points) 15 1770822000 =
     Inr \<lparr>ok = True, temp_c = Some 31,
          today_label = ''Hoje (tarde): C'' @ [CHR 0xC3, CHR 0xA9] @ ''u limpo'',
          tomorrow_label = tomorrow_range 31 31,
          symbol_code = JStr ''clearsky_day'', source = ''online'', cache_ts = JNum 1770822000\<rparr> \<and>
   tomorrow_range 31 31 \<noteq> tomorrow_placeholder \<and>
   tomorrow_range 18 31 \<noteq> tomorrow_range 18 18"
proof (intro conjI)
  show "minmax_loop fl (map (\<lambda>(t, kvs). JObj ((''time'', t) # kvs)) pts) lo hi =
     minmax_loop fl (map (\<lambda>(t, kvs). JObj ((''time'', JNull) # kvs)) pts) lo hi"
    by (rule minmax_loop_ignores_time)
  show "spec_minmax_tomorrow float_of_json ''2026-02-12'' two_day_points = Inr (Some 18, Some 18)"
    by code_simp
  show "minmax_tomorrow float_of_json (JArr two_day_points) = Inr (Some 18, Some 31)"
    by code_simp
  show "extract_summary float_of_json (forecast_of two_day_points) 15 1770822000 =
     Inr \<lparr>ok = True, temp_c = Some 31,
          today_label = ''Hoje (tarde): C'' @ [CHR 0xC3, CHR 0xA9] @ ''u limpo'',
          tomorrow_label = tomorrow_range 18 31,
          symbol_code = JStr ''clearsky_day'', source = ''online'', cache_ts = JNum 1770822000\<rparr>"
    by code_simp
  show "spec_minmax_tomorrow float_of_json ''2026-02-12'' today_only_points = Inr (None, None)"
    by code_simp
  show "minmax_tomorrow float_of_json (JArr today_only_points) = Inr (Some 31, Some 31)"
    by code_simp
  show "extract_summary float_of_json (forecast_of today_only_points) 15 1770822000 =
     Inr \<lparr>ok = True, temp_c = Some 31,
          today_label = ''Hoje (tarde): C'' @ [CHR 0xC3, CHR 0xA9] @ ''u limpo'',
          tomorrow_label = tomorrow_range 31 31,
          symbol_code = JStr ''clearsky_day'', source = ''online'', cache_ts = JNum 1770822000\<rparr>"
    by code_simp
  show "tomorrow_range 31 31 \<noteq> tomorrow_placeholder"
    by code_simp
  show "tomorrow_range 18 31 \<noteq> tomorrow_range 18 18"
    by code_simp
qed

section \<open>get_weather\<close>

lemma extract_summary_fields:
  assumes "extract_summary fl payload h t = Inr res"
  shows "ok res \<and> source res = ''online'' \<and> cache_ts res = JNum (of_int t)"
  using assms
  by (auto simp: extract_summary_def bind_exc_def split: sum.splits prod.splits if_splits)

lemma ok_no_data: "\<not> ok no_data \<and> source no_data = ''cache'' \<and> cache_ts no_data = JNull \<and>
                   today_label no_data = ''Sem dados'' \<and> tomorrow_label no_data = tomorrow_placeholder"
  by (simp add: no_data_def)

lemma cache_fallback_cases:
  assumes "cache_fallback fl w file = Inr r"
  shows "(r = no_data \<and>
           (\<not> truthy (read_json file) \<or>
            (\<exists>p. dict_get (read_json file) ''payload'' JNull = Inr p \<and> \<not> is_dict p))) \<or>
         (\<exists>p res ts.
            dict_get (read_json file) ''payload'' JNull = Inr p \<and> is_dict p \<and>
            extract_summary fl p (now_hour w) (now_ts w) = Inr res \<and>
            dict_get (read_json file) ''ts'' JNull = Inr ts \<and>
            r = res\<lparr>source := ''cache'', cache_ts := ts, ok := True\<rparr>)"
  using assms
  by (auto simp: cache_fallback_def Let_def bind_exc_def split: if_splits sum.splits)

lemma cache_fallback_ok:
  assumes "cache_fallback fl w file = Inr r"
  shows "source r = ''cache'' \<and> (ok r \<longleftrightarrow> r \<noteq> no_data)"
  using cache_fallback_cases[OF assms] ok_no_data by auto

lemma get_weather_cases:
  "fst (get_weather fl city w) =
     (case fst (http_get_json (net w)) of
        Inl e \<Rightarrow> cache_fallback fl w (cache_file w)
      | Inr payload \<Rightarrow>
          (case extract_summary fl payload (now_hour w) (now_ts w) of
             Inl e \<Rightarrow> cache_fallback fl w (cache_file w)
           | Inr res \<Rightarrow>
               if write_ok w then Inr res
               else cache_fallback fl w (archive_existing_cache (archive_ok w) (cache_file w))))"
  by (simp add: get_weather_def bind_exc_def Let_def split: sum.splits)

lemma cache_fallback_usable:
  assumes "file = Some (JObj kvs)" "map_of kvs ''payload'' = Some (JObj pl)"
      and "extract_summary fl (JObj pl) (now_hour w) (now_ts w) = Inr res"
  shows "cache_fallback fl w file =
           Inr (res\<lparr>source := ''cache'',
                    cache_ts := (case map_of kvs ''ts'' of None \<Rightarrow> JNull | Some t \<Rightarrow> t),
                    ok := True\<rparr>)"
proof -
  have "kvs \<noteq> []" using assms(2) by auto
  then show ?thesis
    using assms by (simp add: cache_fallback_def read_json_def bind_exc_def)
qed

lemma cache_fallback_unusable:
  assumes "\<not> truthy (read_json file) \<or>
           (\<exists>kvs. read_json file = JObj kvs \<and>
              \<not> is_dict (case map_of kvs ''payload'' of None \<Rightarrow> JNull | Some p \<Rightarrow> p))"
  shows "cache_fallback fl w file = Inr no_data"
  using assms by (auto simp: cache_fallback_def bind_exc_def Let_def)

lemma get_weather_degrades:
  assumes "fst (http_get_json (net w)) = Inl e \<or>
           (\<exists>payload e'. fst (http_get_json (net w)) = Inr payload \<and>
              extract_summary fl payload (now_hour w) (now_ts w) = Inl e')"
  shows "get_weather fl city w = (cache_fallback fl w (cache_file w), cache_file w)"
  using assms by (auto simp: get_weather_def bind_exc_def)

text \<open>
  C2, the code at a failing input. The network is down and the cache file holds a record
  with a time stamp and a payload that is a dict, in which \<^verbatim>\<open>properties\<close> is
  \<^verbatim>\<open>null\<close>. The \<^verbatim>\<open>except\<close> branch calls \<^verbatim>\<open>_extract_summary\<close> on the payload
  outside any \<^verbatim>\<open>try\<close>; its AttributeError leaves \<^verbatim>\<open>get_weather\<close>, and no
  snapshot is returned. The cache file is left as it was.
\<close>

theorem get_weather_raises_on_odd_cache:
  "fst (http_get_json (net offline_odd_cache)) = Inl OtherError \<and>
   cache_file offline_odd_cache = Some odd_record \<and>
   dict_get odd_record ''ts'' JNull = Inr (JNum 1770000000) \<and>
   dict_get odd_record ''payload'' JNull = Inr (JObj [(''properties'', JNull)]) \<and>
   is_dict (JObj [(''properties'', JNull)]) \<and>
   get_weather float_of_json ''Alfenas'' offline_odd_cache = (Inl AttributeError, Some odd_record)"
proof (intro conjI)
  show "fst (http_get_json (net offline_odd_cache)) = Inl OtherError" by code_simp
  show "cache_file offline_odd_cache = Some odd_record" by (simp add: offline_odd_cache_def)
  show "dict_get odd_record ''ts'' JNull = Inr (JNum 1770000000)" by (simp add: odd_record_def)
  show "dict_get odd_record ''payload'' JNull = Inr (JObj [(''properties'', JNull)])"
    by (simp add: odd_record_def)
  show "is_dict (JObj [(''properties'', JNull)])" by simp
  show "get_weather float_of_json ''Alfenas'' offline_odd_cache = (Inl AttributeError, Some odd_record)"
    by code_simp
qed

text \<open>
  What the flag tells. A snapshot rebuilt from the cache has \<open>source = cache\<close> and
  \<open>ok = True\<close>, and a fresh snapshot has \<open>source = online\<close> and \<open>ok = True\<close>: the
  flag does not tell them apart. Of the snapshots \<^verbatim>\<open>get_weather\<close> returns, only the
  sentinel has \<open>ok = False\<close>. The sentinel comes from the \<^verbatim>\<open>except\<close> branch, for a
  cache file that holds nothing readable, a falsy value, or a dict whose payload is not a
  dict; the branch is entered when the fetch or the parsing raised, and also when the write
  of the new cache file raised after a fetch that succeeded. When the fetch fails and the
  cache file holds a dict whose payload is a dict from which the summary can be extracted,
  the result is that summary with \<open>source = cache\<close>, the stored time stamp and
  \<open>ok = True\<close>.
\<close>

theorem ok_flag_of_get_weather:
  "(cache_fallback fl w file = Inr r \<longrightarrow> source r = ''cache'' \<and> (ok r \<longleftrightarrow> r \<noteq> no_data)) \<and>
   (fst (get_weather fl city w) = Inr r \<longrightarrow> (ok r \<longleftrightarrow> r \<noteq> no_data)) \<and>
   (fst (get_weather fl city w) = Inr r \<and> \<not> ok r \<longrightarrow>
      \<not> (\<exists>payload res.
            fst (http_get_json (net w)) = Inr payload \<and>
            extract_summary fl payload (now_hour w) (now_ts w) = Inr res \<and> write_ok w) \<and>
      (\<exists>file.
          (file = cache_file w \<or> file = archive_existing_cache (archive_ok w) (cache_file w)) \<and>
          cache_fallback fl w file = Inr no_data \<and>
          (\<not> truthy (read_json file) \<or>
           (\<exists>p. dict_get (read_json file) ''payload'' JNull = Inr p \<and> \<not> is_dict p)))) \<and>
   (fst (http_get_json (net w)) = Inr payload \<and>
    extract_summary fl payload (now_hour w) (now_ts w) = Inr res \<and> write_ok w \<longrightarrow>
      fst (get_weather fl city w) = Inr res \<and> ok res \<and> source res = ''online'') \<and>
   (fst (http_get_json (net w)) = Inl e \<and> cache_file w = Some (JObj kvs) \<and>
    map_of kvs ''payload'' = Some (JObj pl) \<and>
    extract_summary fl (JObj pl) (now_hour w) (now_ts w) = Inr res \<longrightarrow>
      fst (get_weather fl city w) =
        Inr (res\<lparr>source := ''cache'',
                 cache_ts := (case map_of kvs ''ts'' of None \<Rightarrow> JNull | Some t \<Rightarrow> t),
                 ok := True\<rparr>))"
proof (intro conjI impI)
  assume "cache_fallback fl w file = Inr r"
  then show "source r = ''cache''" "ok r \<longleftrightarrow> r \<noteq> no_data"
    using cache_fallback_ok by blast+
next
  assume a: "fst (get_weather fl city w) = Inr r"
  show "ok r \<longleftrightarrow> r \<noteq> no_data"
  proof (cases "\<exists>file. cache_fallback fl w file = Inr r")
    case True
    then show ?thesis using cache_fallback_ok by blast
  next
    case False
    then obtain payload where
      "extract_summary fl payload (now_hour w) (now_ts w) = Inr r"
      using a unfolding get_weather_cases
      by (auto split: sum.splits if_splits)
    then show ?thesis using extract_summary_fields ok_no_data by blast
  qed
next
  assume a: "fst (get_weather fl city w) = Inr r \<and> \<not> ok r"
  show "\<not> (\<exists>payload res.
            fst (http_get_json (net w)) = Inr payload \<and>
            extract_summary fl payload (now_hour w) (now_ts w) = Inr res \<and> write_ok w)"
  proof
    assume "\<exists>payload res.
            fst (http_get_json (net w)) = Inr payload \<and>
            extract_summary fl payload (now_hour w) (now_ts w) = Inr res \<and> write_ok w"
    then obtain payload res where
      s: "fst (http_get_json (net w)) = Inr payload"
         "extract_summary fl payload (now_hour w) (now_ts w) = Inr res" "write_ok w"
      by blast
    then have "fst (get_weather fl city w) = Inr res" by (simp add: get_weather_cases)
    then have "r = res" using a by simp
    then show False using a extract_summary_fields[OF s(2)] by simp
  qed
  have "\<exists>file.
          (file = cache_file w \<or> file = archive_existing_cache (archive_ok w) (cache_file w)) \<and>
          cache_fallback fl w file = Inr r"
  proof (cases "fst (http_get_json (net w))")
    case (Inl e)
    then show ?thesis using a by (auto simp: get_weather_cases)
  next
    case (Inr payload)
    show ?thesis
    proof (cases "extract_summary fl payload (now_hour w) (now_ts w)")
      case (Inl e)
      then show ?thesis using a Inr by (auto simp: get_weather_cases)
    next
      case res: (Inr res)
      show ?thesis
      proof (cases "write_ok w")
        case True
        then have "r = res" using a Inr res by (simp add: get_weather_cases)
        then show ?thesis using a extract_summary_fields[OF res] by simp
      next
        case False
        then show ?thesis using a Inr res by (auto simp: get_weather_cases)
      qed
    qed
  qed
  then obtain cf where
    f: "cf = cache_file w \<or> cf = archive_existing_cache (archive_ok w) (cache_file w)" and
    c: "cache_fallback fl w cf = Inr r"
    by blast
  from cache_fallback_cases[OF c] a
  have "r = no_data \<and>
        (\<not> truthy (read_json cf) \<or>
         (\<exists>p. dict_get (read_json cf) ''payload'' JNull = Inr p \<and> \<not> is_dict p))"
    by auto
  then show "\<exists>file.
          (file = cache_file w \<or> file = archive_existing_cache (archive_ok w) (cache_file w)) \<and>
          cache_fallback fl w file = Inr no_data \<and>
          (\<not> truthy (read_json file) \<or>
           (\<exists>p. dict_get (read_json file) ''payload'' JNull = Inr p \<and> \<not> is_dict p))"
    using f c by blast
next
  assume a: "fst (http_get_json (net w)) = Inr payload \<and>
    extract_summary fl payload (now_hour w) (now_ts w) = Inr res \<and> write_ok w"
  then show "fst (get_weather fl city w) = Inr res" by (simp add: get_weather_cases)
  from a show "ok res" "source res = ''online''" using extract_summary_fields by blast+
next
  assume a: "fst (http_get_json (net w)) = Inl e \<and> cache_file w = Some (JObj kvs) \<and>
    map_of kvs ''payload'' = Some (JObj pl) \<and>
    extract_summary fl (JObj pl) (now_hour w) (now_ts w) = Inr res"
  then have "fst (get_weather fl city w) = cache_fallback fl w (cache_file w)"
    by (simp add: get_weather_cases)
  then show "fst (get_weather fl city w) =
        Inr (res\<lparr>source := ''cache'',
                 cache_ts := (case map_of kvs ''ts'' of None \<Rightarrow> JNull | Some t \<Rightarrow> t),
                 ok := True\<rparr>)"
    using a cache_fallback_usable[of "cache_file w" kvs pl fl w res] by simp
qed

theorem ok_flag_of_get_weather_witness:
  "fst (get_weather float_of_json ''Alfenas'' offline_good_cache) =
     Inr \<lparr>ok = True, temp_c = Some 31,
          today_label = ''Hoje (tarde): C'' @ [CHR 0xC3, CHR 0xA9] @ ''u limpo'',
          tomorrow_label = tomorrow_range 18 31,
          symbol_code = JStr ''clearsky_day'', source = ''cache'', cache_ts = JNum 1770000000\<rparr> \<and>
   fst (get_weather float_of_json ''Alfenas'' online_writable) =
     Inr \<lparr>ok = True, temp_c = Some 31,
          today_label = ''Hoje (tarde): C'' @ [CHR 0xC3, CHR 0xA9] @ ''u limpo'',
          tomorrow_label = tomorrow_range 18 31,
          symbol_code = JStr ''clearsky_day'', source = ''online'', cache_ts = JNum 1770822000\<rparr> \<and>
   fst (get_weather float_of_json ''Alfenas'' offline_no_cache) = Inr no_data \<and>
   \<not> ok no_data"
proof -
  let ?res = "\<lparr>ok = True, temp_c = Some 31,
          today_label = ''Hoje (tarde): C'' @ [CHR 0xC3, CHR 0xA9] @ ''u limpo'',
          tomorrow_label = tomorrow_range 18 31,
          symbol_code = JStr ''clearsky_day'', source = ''online'', cache_ts = JNum 1770822000\<rparr>"
  let ?pl = "[(''type'', JStr ''Feature''), (''properties'', JObj [(''timeseries'', JArr two_day_points)])]"
  let ?kvs = "[(''ts'', JNum 1770000000), (''payload'', JObj ?pl), (''city'', JStr ''Alfenas'')]"
  have ex: "extract_summary float_of_json (JObj ?pl) 15 1770822000 = Inr ?res"
    by code_simp
  have down: "fst (http_get_json down_net) = Inl OtherError" by code_simp
  have up: "fst (http_get_json good_net) = Inr (JObj ?pl)" by code_simp
  have c: "cache_file offline_good_cache = Some (JObj ?kvs)"
    by (simp add: offline_good_cache_def good_record_def forecast_of_def)
  have m: "map_of ?kvs ''payload'' = Some (JObj ?pl)" by simp
  have a: "fst (get_weather float_of_json ''Alfenas'' offline_good_cache) =
             Inr (?res\<lparr>source := ''cache'', cache_ts := JNum 1770000000, ok := True\<rparr>)"
    using ok_flag_of_get_weather[where fl = float_of_json and w = offline_good_cache
        and city = "''Alfenas''" and e = OtherError and kvs = ?kvs and pl = ?pl and res = ?res]
      ex down c m
    by (simp add: offline_good_cache_def)
  have b: "fst (get_weather float_of_json ''Alfenas'' online_writable) = Inr ?res"
    using ok_flag_of_get_weather[where fl = float_of_json and w = online_writable
        and city = "''Alfenas''" and payload = "JObj ?pl" and res = ?res]
      ex up
    by (simp add: online_writable_def)
  have n: "fst (get_weather float_of_json ''Alfenas'' offline_no_cache) = Inr no_data"
    by code_simp
  have k: "\<not> ok no_data"
    using n ok_flag_of_get_weather[where fl = float_of_json and w = offline_no_cache
        and city = "''Alfenas''" and r = no_data]
    by simp
  show ?thesis using a b n k by simp
qed

section \<open>A fetched forecast lost to a failed cache write\<close>

text \<open>
  C10, the code at two failing inputs. The network answers with a forecast from which
  the summary is extracted, and \<^verbatim>\<open>_write_json_atomic\<close> raises. With no cache file the
  result is the sentinel, with \<open>ok = False\<close>, although a network response exists. With
  a good cache file, the file has been moved to \<^verbatim>\<open>cache_old\<close> before the write is
  tried, the \<^verbatim>\<open>except\<close> branch finds no file, and the result is again the sentinel,
  although a network response and a usable cache record both existed; the cache file is
  gone afterwards.
\<close>

theorem no_data_after_failed_cache_write:
  "fst (http_get_json (net online_unwritable)) = Inr (forecast_of two_day_points) \<and>
   extract_summary float_of_json (forecast_of two_day_points)
       (now_hour online_unwritable) (now_ts online_unwritable) =
     Inr \<lparr>ok = True, temp_c = Some 31,
          today_label = ''Hoje (tarde): C'' @ [CHR 0xC3, CHR 0xA9] @ ''u limpo'',
          tomorrow_label = tomorrow_range 18 31,
          symbol_code = JStr ''clearsky_day'', source = ''online'', cache_ts = JNum 1770822000\<rparr> \<and>
   \<not> write_ok online_unwritable \<and>
   get_weather float_of_json ''Alfenas'' online_unwritable = (Inr no_data, None) \<and>
   fst (http_get_json (net online_write_fails)) = Inr (forecast_of two_day_points) \<and>
   cache_file online_write_fails = Some good_record \<and>
   cache_fallback float_of_json online_write_fails (Some good_record) =
     Inr \<lparr>ok = True, temp_c = Some 31,
          today_label = ''Hoje (tarde): C'' @ [CHR 0xC3, CHR 0xA9] @ ''u limpo'',
          tomorrow_label = tomorrow_range 18 31,
          symbol_code = JStr ''clearsky_day'', source = ''cache'', cache_ts = JNum 1770000000\<rparr> \<and>
   \<not> write_ok online_write_fails \<and>
   get_weather float_of_json ''Alfenas'' online_write_fails = (Inr no_data, None) \<and>
   \<not> ok no_data"
proof (intro conjI)
  show "fst (http_get_json (net online_unwritable)) = Inr (forecast_of two_day_points)"
    by code_simp
  show "extract_summary float_of_json (forecast_of two_day_points)
       (now_hour online_unwritable) (now_ts online_unwritable) =
     Inr \<lparr>ok = True, temp_c = Some 31,
          today_label = ''Hoje (tarde): C'' @ [CHR 0xC3, CHR 0xA9] @ ''u limpo'',
          tomorrow_label = tomorrow_range 18 31,
          symbol_code = JStr ''clearsky_day'', source = ''online'', cache_ts = JNum 1770822000\<rparr>"
    by code_simp
  show "\<not> write_ok online_unwritable" by (simp add: online_unwritable_def)
  show "get_weather float_of_json ''Alfenas'' online_unwritable = (Inr no_data, None)"
    by code_simp
  show "fst (http_get_json (net online_write_fails)) = Inr (forecast_of two_day_points)"
    by code_simp
  show "cache_file online_write_fails = Some good_record" by (simp add: online_write_fails_def)
  show "cache_fallback float_of_json online_write_fails (Some good_record) =
     Inr \<lparr>ok = True, temp_c = Some 31,
          today_label = ''Hoje (tarde): C'' @ [CHR 0xC3, CHR 0xA9] @ ''u limpo'',
          tomorrow_label = tomorrow_range 18 31,
          symbol_code = JStr ''clearsky_day'', source = ''cache'', cache_ts = JNum 1770000000\<rparr>"
    by code_simp
  show "\<not> write_ok online_write_fails" by (simp add: online_write_fails_def)
  show "get_weather float_of_json ''Alfenas'' online_write_fails = (Inr no_data, None)"
    by code_simp
  show "\<not> ok no_data" by (simp add: no_data_def)
qed

end
